theory Spec2Isabelle
  imports Complex_Main "HOL-Library.Word"
begin

section \<open>Instruction streams and the object counter\<close>

text \<open>
  The opcodes of \<^verbatim>\<open>pdfjsLib.OPS\<close> that \<^verbatim>\<open>countGraphicsObjects\<close> names, one constructor
  each (the table of the parsing library gives them pairwise different numbers); every
  other opcode of the table is \<open>otherOp\<close> with its number.
\<close>

datatype opcode =
    paintImageXObject | paintInlineImageXObject | paintImageMaskXObject
  | stroke | fill | eoFill | fillStroke | eoFillStroke
  | closePath | rectangle | moveTo | lineTo | curveTo | curveTo2 | curveTo3
  | constructPath
  | otherOp nat

definition IMAGE_OPS :: "opcode list" where
  "IMAGE_OPS = [paintImageXObject, paintInlineImageXObject, paintImageMaskXObject]"

definition VECTOR_OPS :: "opcode list" where
  "VECTOR_OPS = [stroke, fill, eoFill, fillStroke, eoFillStroke,
     closePath, rectangle, moveTo, lineTo, curveTo, curveTo2, curveTo3, constructPath]"

text \<open>The array literal of the second \<^verbatim>\<open>if\<close> inside the vector branch.\<close>

definition TERMINATOR_OPS :: "opcode list" where
  "TERMINATOR_OPS = [stroke, fill, eoFill, fillStroke, eoFillStroke]"

text \<open>The path-segment opcodes: the vector opcodes that are neither a terminator nor
  \<open>constructPath\<close>.\<close>

definition PATH_SEGMENT_OPS :: "opcode list" where
  "PATH_SEGMENT_OPS = [closePath, rectangle, moveTo, lineTo, curveTo, curveTo2, curveTo3]"

record counts =
  imageCount :: nat
  vectorCount :: nat

record scan_state = counts +
  inVectorSequence :: bool

definition scan_init :: scan_state where
  "scan_init = \<lparr>imageCount = 0, vectorCount = 0, inVectorSequence = False\<rparr>"

text \<open>
  One iteration of the \<^verbatim>\<open>for\<close> loop of \<^verbatim>\<open>countGraphicsObjects\<close>. Inside the vector branch
  the source has two consecutive \<^verbatim>\<open>if\<close> statements: the first handles \<open>constructPath\<close>,
  the second is an \<^verbatim>\<open>if\<close>/\<^verbatim>\<open>else\<close> on the terminators and runs for every vector opcode,
  \<open>constructPath\<close> included.
\<close>

definition scan_step :: "opcode \<Rightarrow> scan_state \<Rightarrow> scan_state" where
  "scan_step op s =
     (if op \<in> set IMAGE_OPS then
        s\<lparr>imageCount := imageCount s + 1, inVectorSequence := False\<rparr>
      else if op \<in> set VECTOR_OPS then
        (let s1 = (if op = constructPath
                   then s\<lparr>vectorCount := vectorCount s + 1, inVectorSequence := False\<rparr>
                   else s)
         in if op \<in> set TERMINATOR_OPS then
              (if inVectorSequence s1
               then s1\<lparr>vectorCount := vectorCount s1 + 1, inVectorSequence := False\<rparr>
               else s1)
            else s1\<lparr>inVectorSequence := True\<rparr>)
      else s)"

fun scan_loop :: "opcode list \<Rightarrow> scan_state \<Rightarrow> scan_state" where
  "scan_loop [] s = s"
| "scan_loop (op # ops) s = scan_loop ops (scan_step op s)"

definition countGraphicsObjects :: "opcode list \<Rightarrow> counts" where
  "countGraphicsObjects fnArray =
     (let s = scan_loop fnArray scan_init
      in \<lparr>imageCount = imageCount s,
          vectorCount = (if inVectorSequence s then vectorCount s + 1 else vectorCount s)\<rparr>)"

section \<open>Page sampling\<close>

text \<open>
  The page numbers visited by the sampling loop of \<^verbatim>\<open>analyzePdfType\<close>:
  \<^verbatim>\<open>pagesToAnalyze = Math.min(samplePages, numPages)\<close>,
  \<^verbatim>\<open>step = Math.max(1, Math.floor(numPages / pagesToAnalyze))\<close> and, for
  \<open>i\<close> from 0 below \<open>pagesToAnalyze\<close>, \<^verbatim>\<open>Math.min(1 + i * step, numPages)\<close>.
  When \<open>pagesToAnalyze\<close> is 0 the quotient is not a finite number in JavaScript, but the
  loop body never runs and \<open>step\<close> is never read, so the value HOL gives it is immaterial.
\<close>

definition pagesToAnalyze :: "nat \<Rightarrow> nat \<Rightarrow> nat" where
  "pagesToAnalyze samplePages numPages = min samplePages numPages"

definition sampleStep :: "nat \<Rightarrow> nat \<Rightarrow> nat" where
  "sampleStep samplePages numPages =
     max 1 (numPages div pagesToAnalyze samplePages numPages)"

definition samplePageNums :: "nat \<Rightarrow> nat \<Rightarrow> nat list" where
  "samplePageNums samplePages numPages =
     map (\<lambda>i. min (1 + i * sampleStep samplePages numPages) numPages)
       [0 ..< pagesToAnalyze samplePages numPages]"

section \<open>JavaScript numbers\<close>

text \<open>
  The numbers the analysis computes with are IEEE 754 doubles: a finite value is held as
  the exact rational it denotes, next to the two infinities and NaN. Every arithmetic
  operation computes the exact result and rounds it to the nearest double, ties to the even
  significand, as the language does. The sign of zero is not modelled: every zero here is
  \<open>+0\<close>, which is what the non-negative quantities of the analysis produce.
\<close>

datatype jsnum = Num rat | PosInf | NegInf | NaN

text \<open>The number of binary digits of a natural number.\<close>

fun bitLength :: "nat \<Rightarrow> nat" where
  "bitLength n = (if n = 0 then 0 else Suc (bitLength (n div 2)))"

declare bitLength.simps [simp del]

definition pow2 :: "int \<Rightarrow> rat" where
  "pow2 e = (if 0 \<le> e then 2 ^ nat e else 1 / 2 ^ nat (- e))"

text \<open>The binary exponent of a positive rational: the \<open>e\<close> with \<open>2 ^ e \<le> a < 2 ^ (e + 1)\<close>.\<close>

definition ilog2 :: "rat \<Rightarrow> int" where
  "ilog2 a =
     (if 1 \<le> a then int (bitLength (nat \<lfloor>a\<rfloor>)) - 1
      else - int (bitLength (nat (\<lceil>1 / a\<rceil> - 1))))"

definition roundHalfEven :: "rat \<Rightarrow> int" where
  "roundHalfEven y =
     (let f = \<lfloor>y\<rfloor>; d = y - of_int f
      in if d < 1 / 2 then f
         else if 1 / 2 < d then f + 1
         else if even f then f else f + 1)"

text \<open>
  Rounding an exact result to a double: 53 significant bits, the exponent not below that
  of the subnormal numbers (\<open>- 1022\<close>), overflow to an infinity from \<open>2 ^ 1024\<close> on.
\<close>

definition double :: "rat \<Rightarrow> jsnum" where
  "double x =
     (if x = 0 then Num 0
      else
        (let a = \<bar>x\<bar>;
             e = max (ilog2 a) (- 1022);
             q = pow2 (e - 52);
             m = roundHalfEven (a / q)
         in if 1024 \<le> e \<or> (e = 1023 \<and> m = 2 ^ 53)
            then (if 0 < x then PosInf else NegInf)
            else Num (if 0 < x then of_int m * q else - (of_int m * q))))"

fun js_div :: "jsnum \<Rightarrow> jsnum \<Rightarrow> jsnum" where
  "js_div (Num a) (Num b) =
     (if b \<noteq> 0 then double (a / b)
      else if 0 < a then PosInf else if a < 0 then NegInf else NaN)"
| "js_div (Num a) PosInf = Num 0"
| "js_div (Num a) NegInf = Num 0"
| "js_div PosInf (Num b) = (if 0 \<le> b then PosInf else NegInf)"
| "js_div NegInf (Num b) = (if 0 \<le> b then NegInf else PosInf)"
| "js_div _ _ = NaN"

fun js_mul :: "jsnum \<Rightarrow> jsnum \<Rightarrow> jsnum" where
  "js_mul (Num a) (Num b) = double (a * b)"
| "js_mul NaN _ = NaN"
| "js_mul _ NaN = NaN"
| "js_mul (Num a) PosInf = (if 0 < a then PosInf else if a < 0 then NegInf else NaN)"
| "js_mul (Num a) NegInf = (if 0 < a then NegInf else if a < 0 then PosInf else NaN)"
| "js_mul PosInf (Num b) = (if 0 < b then PosInf else if b < 0 then NegInf else NaN)"
| "js_mul NegInf (Num b) = (if 0 < b then NegInf else if b < 0 then PosInf else NaN)"
| "js_mul PosInf PosInf = PosInf"
| "js_mul NegInf NegInf = PosInf"
| "js_mul PosInf NegInf = NegInf"
| "js_mul NegInf PosInf = NegInf"

fun js_add :: "jsnum \<Rightarrow> jsnum \<Rightarrow> jsnum" where
  "js_add (Num a) (Num b) = double (a + b)"
| "js_add NaN _ = NaN"
| "js_add _ NaN = NaN"
| "js_add PosInf NegInf = NaN"
| "js_add NegInf PosInf = NaN"
| "js_add PosInf _ = PosInf"
| "js_add _ PosInf = PosInf"
| "js_add NegInf _ = NegInf"
| "js_add _ NegInf = NegInf"

text \<open>\<^verbatim>\<open>a < b\<close>: false as soon as one side is NaN.\<close>

fun js_lt :: "jsnum \<Rightarrow> jsnum \<Rightarrow> bool" where
  "js_lt (Num a) (Num b) = (a < b)"
| "js_lt NaN _ = False"
| "js_lt _ NaN = False"
| "js_lt _ NegInf = False"
| "js_lt PosInf _ = False"
| "js_lt NegInf _ = True"
| "js_lt _ PosInf = True"

text \<open>\<^verbatim>\<open>a === b\<close> on numbers: NaN equals nothing.\<close>

definition js_eq :: "jsnum \<Rightarrow> jsnum \<Rightarrow> bool" where
  "js_eq a b = (a \<noteq> NaN \<and> a = b)"

definition js_gt :: "jsnum \<Rightarrow> jsnum \<Rightarrow> bool" where
  "js_gt a b = js_lt b a"

definition js_le :: "jsnum \<Rightarrow> jsnum \<Rightarrow> bool" where
  "js_le a b = (js_lt a b \<or> js_eq a b)"

text \<open>\<^verbatim>\<open>Math.min\<close> of two numbers: NaN if either is NaN.\<close>

definition Math_min :: "jsnum \<Rightarrow> jsnum \<Rightarrow> jsnum" where
  "Math_min a b = (if a = NaN \<or> b = NaN then NaN else if js_lt b a then b else a)"

text \<open>\<^verbatim>\<open>Math.round\<close>: the integer nearest to the double's value, halves towards \<open>+\<infinity>\<close>.
  The result is a double again: a double of magnitude \<open>2 ^ 52\<close> or more is an integer.\<close>

fun Math_round :: "jsnum \<Rightarrow> jsnum" where
  "Math_round (Num a) = Num (of_int \<lfloor>a + 1 / 2\<rfloor>)"
| "Math_round x = x"

text \<open>\<^verbatim>\<open>parseFloat(x.toFixed(2))\<close>: \<^verbatim>\<open>toFixed\<close> takes the two-decimal number nearest to the
  double's exact value, the larger one on a tie, and \<^verbatim>\<open>parseFloat\<close> reads it back as the
  nearest double.\<close>

fun toFixed2 :: "jsnum \<Rightarrow> jsnum" where
  "toFixed2 (Num a) =
     (if 0 \<le> a then double (of_int \<lfloor>a * 100 + 1 / 2\<rfloor> / 100)
      else double (- (of_int \<lfloor>- a * 100 + 1 / 2\<rfloor> / 100)))"
| "toFixed2 x = x"

text \<open>A count as a number; counts stay far below \<open>2 ^ 53\<close>, where every integer is a
  double.\<close>

definition js_nat :: "nat \<Rightarrow> jsnum" where
  "js_nat n = Num (of_nat n)"

section \<open>The classifier\<close>

datatype pdf_type = Scan | Vector | Text

record pdf_type_stats =
  totalPages :: nat
  sampledPages :: nat
  avgImagesPerPage :: jsnum
  avgVectorsPerPage :: jsnum
  avgTextItemsPerPage :: jsnum
  largeImageRatio :: jsnum
  estimatedTotalImages :: jsnum
  estimatedTotalVectors :: jsnum

record pdf_type_analysis =
  type' :: pdf_type
  confidence :: jsnum
  stats :: pdf_type_stats

text \<open>
  The decision block of \<^verbatim>\<open>analyzePdfType\<close> (the \<^verbatim>\<open>if\<close> / \<^verbatim>\<open>else if\<close> / \<^verbatim>\<open>else\<close> on the three
  averages), as a function of the averages; the result is the pair
  \<^verbatim>\<open>type\<close>, \<^verbatim>\<open>confidence\<close>. A decimal literal such as \<^verbatim>\<open>0.95\<close> is the double nearest to it.
\<close>

definition classify :: "jsnum \<Rightarrow> jsnum \<Rightarrow> jsnum \<Rightarrow> pdf_type \<times> jsnum" where
  "classify avgText avgImages avgVectors =
     (if js_lt avgText (Num 30) \<and> js_gt avgImages (Num 0) \<and> js_le avgImages (Num 100) then
        (Scan, Math_min (double (95 / 100))
                 (js_add (double (7 / 10))
                    (js_mul (js_div avgImages (Num 100)) (double (25 / 100)))))
      else if js_lt avgText (Num 30) \<and> js_eq avgImages (Num 0) \<and> js_gt avgVectors (Num 0) then
        (Vector, Math_min (double (9 / 10))
                   (js_add (double (7 / 10))
                      (js_mul (js_div avgVectors (Num 10)) (double (2 / 10)))))
      else
        (Text, Math_min (double (9 / 10))
                 (js_add (double (6 / 10))
                    (js_mul (js_div avgText (Num 100)) (double (3 / 10))))))"

section \<open>Resource dictionaries\<close>

text \<open>
  What a dictionary \<^verbatim>\<open>get\<close> can do: throw, give nothing usable (\<^verbatim>\<open>undefined\<close>, \<^verbatim>\<open>null\<close>, or for a
  category an object without \<^verbatim>\<open>getKeys\<close>), or give a value.
\<close>

datatype 'a lookup = Raises | Missing | Found 'a

record xobject_dict =
  Subtype :: "string lookup"
  Width :: "nat lookup"
  Height :: "nat lookup"

text \<open>A value stored under an XObject key: a dictionary (it has \<^verbatim>\<open>get\<close>) or something else.\<close>

datatype xobj_value = NotADict | IsDict xobject_dict

text \<open>A category is its keys in \<^verbatim>\<open>getKeys()\<close> order; an XObject key carries what
  \<^verbatim>\<open>xobjects.get(key)\<close> does.\<close>

record resources =
  XObject :: "(string \<times> xobj_value lookup) list lookup"
  Pattern :: "string list lookup"
  Shading :: "string list lookup"

record totals =
  totalImages :: nat
  totalVectors :: nat

text \<open>
  The \<^verbatim>\<open>for (const key of keys)\<close> loop of \<^verbatim>\<open>extractPdfSmart\<close>, each iteration inside its own
  \<^verbatim>\<open>try\<close>/\<^verbatim>\<open>catch\<close>.
\<close>

fun countXObjects ::
  "(string \<times> xobj_value lookup) list \<Rightarrow> 'a totals_scheme \<Rightarrow> 'a totals_scheme" where
  "countXObjects [] acc = acc"
| "countXObjects ((key, entry) # rest) acc =
     countXObjects rest
       (case entry of
          Raises \<Rightarrow> acc
        | Missing \<Rightarrow> acc
        | Found NotADict \<Rightarrow> acc
        | Found (IsDict xobj) \<Rightarrow>
            (case Subtype xobj of
               Raises \<Rightarrow> acc
             | Missing \<Rightarrow> acc
             | Found subtype \<Rightarrow>
                 if subtype = ''Image'' then acc\<lparr>totalImages := totalImages acc + 1\<rparr>
                 else if subtype = ''Form'' then acc\<lparr>totalVectors := totalVectors acc + 1\<rparr>
                 else acc))"

text \<open>\<^verbatim>\<open>if (c && c.getKeys) totalVectors += c.getKeys().length\<close>.\<close>

definition addKeys :: "string list lookup \<Rightarrow> 'a totals_scheme \<Rightarrow> 'a totals_scheme" where
  "addKeys category acc =
     (case category of
        Found keys \<Rightarrow> acc\<lparr>totalVectors := totalVectors acc + length keys\<rparr>
      | _ \<Rightarrow> acc)"

text \<open>
  The outer \<^verbatim>\<open>try\<close> block of \<^verbatim>\<open>extractPdfSmart\<close>, applied to what
  \<^verbatim>\<open>page._pageDict?.get('Resources')\<close> does. A throwing \<^verbatim>\<open>get\<close> of \<open>Resources\<close>, \<open>XObject\<close>,
  \<open>Pattern\<close> or \<open>Shading\<close> leaves the block through the outer \<^verbatim>\<open>catch\<close>; the totals keep
  what was added before. Both \<open>Pattern\<close> and \<open>Shading\<close> are fetched before either is counted.
\<close>

definition countFromDictionary :: "resources lookup \<Rightarrow> 'a totals_scheme \<Rightarrow> 'a totals_scheme" where
  "countFromDictionary res acc =
     (case res of
        Raises \<Rightarrow> acc
      | Missing \<Rightarrow> acc
      | Found resources \<Rightarrow>
          (case XObject resources of
             Raises \<Rightarrow> acc
           | xobjects \<Rightarrow>
               (let acc1 = (case xobjects of Found entries \<Rightarrow> countXObjects entries acc | _ \<Rightarrow> acc)
                in case Pattern resources of
                     Raises \<Rightarrow> acc1
                   | patterns \<Rightarrow>
                       (case Shading resources of
                          Raises \<Rightarrow> acc1
                        | shadings \<Rightarrow> addKeys shadings (addKeys patterns acc1)))))"

text \<open>
  The large-image probe of \<^verbatim>\<open>analyzePdfType\<close>: is there a key whose value is an \<open>Image\<close>
  with \<^verbatim>\<open>Width\<close> and \<^verbatim>\<open>Height\<close> both above 1000? Each key is inside its own \<^verbatim>\<open>try\<close>/\<^verbatim>\<open>catch\<close>;
  \<^verbatim>\<open>xobj?.get\<close> on a value without \<^verbatim>\<open>get\<close> throws and is caught; \<^verbatim>\<open>|| 0\<close> turns a missing
  dimension into 0.
\<close>

definition dimension :: "nat lookup \<Rightarrow> nat option" where
  "dimension d = (case d of Raises \<Rightarrow> None | Missing \<Rightarrow> Some 0 | Found n \<Rightarrow> Some n)"

fun hasLargeImage :: "(string \<times> xobj_value lookup) list \<Rightarrow> bool" where
  "hasLargeImage [] = False"
| "hasLargeImage ((key, entry) # rest) =
     (case entry of
        Found (IsDict xobj) \<Rightarrow>
          (case Subtype xobj of
             Found subtype \<Rightarrow>
               if subtype = ''Image'' then
                 (case dimension (Width xobj) of
                    None \<Rightarrow> hasLargeImage rest
                  | Some width \<Rightarrow>
                      (case dimension (Height xobj) of
                         None \<Rightarrow> hasLargeImage rest
                       | Some height \<Rightarrow>
                           if 1000 < width \<and> 1000 < height then True
                           else hasLargeImage rest))
               else hasLargeImage rest
           | _ \<Rightarrow> hasLargeImage rest)
      | _ \<Rightarrow> hasLargeImage rest)"

section \<open>Collaborators: sources, documents, pages, callbacks\<close>

datatype error =
    InvalidSource
  | FileError
  | DocumentError
  | PageError
  | TextError
  | OperatorListError
  | CallbackError

type_synonym bytes = "8 word list"

text \<open>
  What a caller can pass as \<^verbatim>\<open>pdfSource\<close>: a string, a Node.js \<^verbatim>\<open>Buffer\<close>, a \<^verbatim>\<open>Uint8Array\<close>
  that is not a \<^verbatim>\<open>Buffer\<close>, or any other value.
\<close>

datatype pdf_source =
    FilePath string
  | NodeBuffer bytes
  | PlainUint8Array bytes
  | OtherValue

datatype intent = Display | Print

text \<open>
  The text of a page is what \<^verbatim>\<open>textContent.items.map(item => item.str)\<close> gives: JavaScript
  strings, held as their UTF-16 code units.
\<close>

type_synonym js_string = "nat list"

record page =
  getTextContent :: "error + js_string list"
  getOperatorList :: "intent \<Rightarrow> error + opcode list"
  pageResources :: "resources lookup"

text \<open>A document is what \<^verbatim>\<open>getPage\<close> gives for each page number, in order.\<close>

record pdf_document =
  pdfPages :: "(error + page) list"

definition numPages :: "pdf_document \<Rightarrow> nat" where
  "numPages pdf = length (pdfPages pdf)"

record env =
  readFileSync :: "string \<Rightarrow> error + bytes"
  getDocument :: "bytes \<Rightarrow> error + pdf_document"

text \<open>The payload of \<^verbatim>\<open>onPageProcessed\<close>: \<^verbatim>\<open>pageNum\<close>, \<^verbatim>\<open>totalPages\<close>, \<^verbatim>\<open>currentImages\<close>,
  \<^verbatim>\<open>currentVectors\<close>.\<close>

datatype page_processed_info = PageProcessedInfo nat nat nat nat

text \<open>The payload of \<^verbatim>\<open>onProgress\<close>, by stage: \<open>analyzing\<close>; \<open>analyzed\<close> with \<^verbatim>\<open>pdfType\<close> and
  \<^verbatim>\<open>confidence\<close>; \<open>extracting\<close> with \<^verbatim>\<open>progress\<close>, \<^verbatim>\<open>currentPage\<close> and \<^verbatim>\<open>totalPages\<close>.\<close>

datatype progress_info =
    Analyzing
  | Analyzed pdf_type jsnum
  | Extracting jsnum nat nat

text \<open>A callback returns (\<open>None\<close>) or throws (\<open>Some e\<close>).\<close>

type_synonym 'i callback = "'i \<Rightarrow> error option"

datatype event =
    DocumentOpened
  | PageLoaded nat
  | PageCleanup nat
  | DocumentDestroyed
  | PageProcessed page_processed_info
  | Progress progress_info

text \<open>
  An asynchronous computation: its outcome, a failure (\<open>Inl\<close>, the rejection) or a value,
  together with the trace of what it did to the collaborators, in order.
\<close>

type_synonym 'a action = "(error + 'a) \<times> event list"

definition outcome :: "'a action \<Rightarrow> error + 'a" where
  "outcome m = fst m"

definition trace :: "'a action \<Rightarrow> event list" where
  "trace m = snd m"

definition failed :: "'a action \<Rightarrow> bool" where
  "failed m = isl (outcome m)"

definition succeed :: "'a \<Rightarrow> 'a action" where
  "succeed x = (Inr x, [])"

definition throw :: "error \<Rightarrow> 'a action" where
  "throw e = (Inl e, [])"

definition await :: "error + 'a \<Rightarrow> 'a action" where
  "await r = (r, [])"

definition emit :: "event \<Rightarrow> unit action" where
  "emit ev = (Inr (), [ev])"

text \<open>Sequencing: a failure of the first part skips the rest.\<close>

definition andThen :: "'a action \<Rightarrow> ('a \<Rightarrow> 'b action) \<Rightarrow> 'b action" where
  "andThen m f =
     (case m of
        (Inl e, tr) \<Rightarrow> (Inl e, tr)
      | (Inr x, tr) \<Rightarrow> (fst (f x), tr @ snd (f x)))"

text \<open>A \<^verbatim>\<open>for\<close> loop over page numbers whose body may fail: the first failure leaves it.\<close>

fun forEach :: "(nat \<Rightarrow> 's \<Rightarrow> 's action) \<Rightarrow> nat list \<Rightarrow> 's \<Rightarrow> 's action" where
  "forEach body [] s = (Inr s, [])"
| "forEach body (n # ns) s =
     (case body n s of
        (Inl e, tr) \<Rightarrow> (Inl e, tr)
      | (Inr s', tr) \<Rightarrow> (fst (forEach body ns s'), tr @ snd (forEach body ns s')))"

text \<open>How often a trace disposes of a document, and how often it opens one.\<close>

definition destroys :: "event list \<Rightarrow> nat" where
  "destroys tr = count_list tr DocumentDestroyed"

definition opens :: "event list \<Rightarrow> nat" where
  "opens tr = count_list tr DocumentOpened"

text \<open>\<^verbatim>\<open>if (cb) cb(info)\<close>.\<close>

definition notify :: "'i callback option \<Rightarrow> ('i \<Rightarrow> event) \<Rightarrow> 'i \<Rightarrow> unit action" where
  "notify cb ev info =
     (case cb of
        None \<Rightarrow> succeed ()
      | Some f \<Rightarrow>
          andThen (emit (ev info)) (\<lambda>_.
            case f info of None \<Rightarrow> succeed () | Some e \<Rightarrow> throw e))"

definition loadPdfData :: "env \<Rightarrow> pdf_source \<Rightarrow> error + bytes" where
  "loadPdfData env source =
     (case source of
        FilePath path \<Rightarrow> readFileSync env path
      | NodeBuffer b \<Rightarrow> Inr b
      | _ \<Rightarrow> Inl InvalidSource)"

text \<open>\<^verbatim>\<open>await pdfjsLib.getDocument({data, ...}).promise\<close>.\<close>

definition openDocument :: "env \<Rightarrow> bytes \<Rightarrow> pdf_document action" where
  "openDocument env data =
     andThen (await (getDocument env data)) (\<lambda>pdf.
     andThen (emit DocumentOpened) (\<lambda>_.
     succeed pdf))"

definition getPage :: "pdf_document \<Rightarrow> nat \<Rightarrow> page action" where
  "getPage pdf pageNum =
     andThen (await (if 1 \<le> pageNum \<and> pageNum \<le> numPages pdf
                     then pdfPages pdf ! (pageNum - 1) else Inl PageError)) (\<lambda>page.
     andThen (emit (PageLoaded pageNum)) (\<lambda>_.
     succeed page))"

section \<open>Text\<close>

text \<open>\<^verbatim>\<open>items.join(sep)\<close>.\<close>

fun join :: "js_string \<Rightarrow> js_string list \<Rightarrow> js_string" where
  "join sep [] = []"
| "join sep [x] = x"
| "join sep (x # y # ys) = x @ sep @ join sep (y # ys)"

text \<open>
  What \<^verbatim>\<open>String.prototype.trim\<close> strips: the white space and line terminators of the
  language. These are TAB, LF, VT, FF, CR, space, U+00A0, U+1680, U+2000 to U+200A, U+2028,
  U+2029, U+202F, U+205F, U+3000 and U+FEFF, each a single code unit.
\<close>

definition isWhitespace :: "nat \<Rightarrow> bool" where
  "isWhitespace c =
     (c \<in> set [0x09, 0x0A, 0x0B, 0x0C, 0x0D, 0x20, 0xA0, 0x1680,
                0x2000, 0x2001, 0x2002, 0x2003, 0x2004, 0x2005, 0x2006, 0x2007, 0x2008,
                0x2009, 0x200A, 0x2028, 0x2029, 0x202F, 0x205F, 0x3000, 0xFEFF])"

definition trim :: "js_string \<Rightarrow> js_string" where
  "trim s = rev (dropWhile isWhitespace (rev (dropWhile isWhitespace s)))"

text \<open>The separators \<^verbatim>\<open>' '\<close> and \<^verbatim>\<open>'\n'\<close>.\<close>

definition space :: js_string where
  "space = [0x20]"

definition newline :: js_string where
  "newline = [0x0A]"

text \<open>An ASCII literal as a JavaScript string: one code unit for each character.\<close>

definition utf16 :: "string \<Rightarrow> js_string" where
  "utf16 s = map of_char s"

section \<open>The entry points\<close>

text \<open>
  Each entry point first awaits \<^verbatim>\<open>setupCanvasPolyfill\<close>, which catches its own failure and
  only installs a global; and some call \<^verbatim>\<open>global.gc\<close> when it exists. Neither changes a
  result or reaches a collaborator, so neither appears below. The fields \<^verbatim>\<open>text\<close> and
  \<^verbatim>\<open>type\<close> of the results are written \<open>text'\<close> and \<open>type'\<close>, and the \<^verbatim>\<open>confidence\<close> of the
  smart result is \<open>smartConfidence\<close>, the analysis result having a field of that name
  already.
\<close>

record pdf_data_result = counts +
  text' :: js_string

record pdf_stats_result = pdf_data_result +
  pages :: nat

record pdf_smart_result = pdf_stats_result +
  pdfType :: pdf_type
  smartConfidence :: jsnum

record extract_acc = totals +
  fullText :: js_string

record stream_acc = totals +
  textChunks :: "js_string list"

record analysis_acc = totals +
  totalText :: nat
  pagesWithLargeImages :: nat

text \<open>\<^verbatim>\<open>StreamingOptions\<close> and \<^verbatim>\<open>StatsOptions\<close>: the same two optional fields.\<close>

record page_options =
  onPageProcessed :: "page_processed_info callback option"
  extractText :: "bool option"

record analyze_options =
  samplePages :: "nat option"

record smart_options =
  onProgress :: "progress_info callback option"

definition addCounts :: "counts \<Rightarrow> 'a totals_scheme \<Rightarrow> 'a totals_scheme" where
  "addCounts c acc =
     acc\<lparr>totalImages := totalImages acc + imageCount c,
         totalVectors := totalVectors acc + vectorCount c\<rparr>"

subsection \<open>\<^verbatim>\<open>extractPdfData\<close>\<close>

definition dataPage :: "pdf_document \<Rightarrow> nat \<Rightarrow> extract_acc \<Rightarrow> extract_acc action" where
  "dataPage pdf pageNum acc =
     andThen (getPage pdf pageNum) (\<lambda>page.
     andThen (await (getTextContent page)) (\<lambda>items.
     andThen (await (getOperatorList page Display)) (\<lambda>ops.
     andThen (emit (PageCleanup pageNum)) (\<lambda>_.
     succeed (addCounts (countGraphicsObjects ops)
                (acc\<lparr>fullText := fullText acc @ join space items @ newline\<rparr>))))))"

definition extractPdfData :: "env \<Rightarrow> pdf_source \<Rightarrow> pdf_data_result action" where
  "extractPdfData env pdfSource =
     andThen (await (loadPdfData env pdfSource)) (\<lambda>data.
     andThen (openDocument env data) (\<lambda>pdf.
     andThen (forEach (dataPage pdf) [1 ..< Suc (numPages pdf)]
                \<lparr>totalImages = 0, totalVectors = 0, fullText = []\<rparr>) (\<lambda>acc.
     andThen (emit DocumentDestroyed) (\<lambda>_.
     succeed \<lparr>imageCount = totalImages acc, vectorCount = totalVectors acc,
              text' = trim (fullText acc)\<rparr>))))"

subsection \<open>\<^verbatim>\<open>extractPdfDataStreaming\<close>\<close>

definition wantsText :: "bool option \<Rightarrow> bool" where
  "wantsText opt = (case opt of None \<Rightarrow> True | Some b \<Rightarrow> b)"

definition streamingPage ::
  "page_options \<Rightarrow> pdf_document \<Rightarrow> nat \<Rightarrow> stream_acc \<Rightarrow> stream_acc action" where
  "streamingPage options pdf pageNum acc =
     andThen (getPage pdf pageNum) (\<lambda>page.
     andThen (if wantsText (extractText options)
              then andThen (await (getTextContent page)) (\<lambda>items.
                     succeed (acc\<lparr>textChunks := textChunks acc @ [join space items]\<rparr>))
              else succeed acc) (\<lambda>acc1.
     andThen (await (getOperatorList page Display)) (\<lambda>ops.
     andThen (emit (PageCleanup pageNum)) (\<lambda>_.
     andThen (notify (onPageProcessed options) PageProcessed
                (PageProcessedInfo pageNum (numPages pdf)
                   (imageCount (countGraphicsObjects ops))
                   (vectorCount (countGraphicsObjects ops)))) (\<lambda>_.
     succeed (addCounts (countGraphicsObjects ops) acc1))))))"

definition extractPdfDataStreaming ::
  "env \<Rightarrow> pdf_source \<Rightarrow> page_options \<Rightarrow> pdf_data_result action" where
  "extractPdfDataStreaming env pdfSource options =
     andThen (await (loadPdfData env pdfSource)) (\<lambda>data.
     andThen (openDocument env data) (\<lambda>pdf.
     andThen (forEach (streamingPage options pdf) [1 ..< Suc (numPages pdf)]
                \<lparr>totalImages = 0, totalVectors = 0, textChunks = []\<rparr>) (\<lambda>acc.
     andThen (emit DocumentDestroyed) (\<lambda>_.
     succeed \<lparr>imageCount = totalImages acc, vectorCount = totalVectors acc,
              text' = (if wantsText (extractText options)
                       then trim (join newline (textChunks acc)) else [])\<rparr>))))"

subsection \<open>\<^verbatim>\<open>extractPdfStats\<close>\<close>

definition statsPage ::
  "page_options \<Rightarrow> pdf_document \<Rightarrow> nat \<Rightarrow> extract_acc \<Rightarrow> extract_acc action" where
  "statsPage options pdf pageNum acc =
     andThen (getPage pdf pageNum) (\<lambda>page.
     andThen (if wantsText (extractText options)
              then andThen (await (getTextContent page)) (\<lambda>items.
                     succeed (acc\<lparr>fullText := fullText acc @ join space items @ newline\<rparr>))
              else succeed acc) (\<lambda>acc1.
     andThen (await (getOperatorList page Print)) (\<lambda>ops.
     andThen (emit (PageCleanup pageNum)) (\<lambda>_.
     andThen (notify (onPageProcessed options) PageProcessed
                (PageProcessedInfo pageNum (numPages pdf)
                   (imageCount (countGraphicsObjects ops))
                   (vectorCount (countGraphicsObjects ops)))) (\<lambda>_.
     succeed (addCounts (countGraphicsObjects ops) acc1))))))"

definition extractPdfStats ::
  "env \<Rightarrow> pdf_source \<Rightarrow> page_options \<Rightarrow> pdf_stats_result action" where
  "extractPdfStats env pdfSource options =
     andThen (await (loadPdfData env pdfSource)) (\<lambda>data.
     andThen (openDocument env data) (\<lambda>pdf.
     andThen (forEach (statsPage options pdf) [1 ..< Suc (numPages pdf)]
                \<lparr>totalImages = 0, totalVectors = 0, fullText = []\<rparr>) (\<lambda>acc.
     andThen (emit DocumentDestroyed) (\<lambda>_.
     succeed \<lparr>imageCount = totalImages acc, vectorCount = totalVectors acc,
              text' = trim (fullText acc), pages = numPages pdf\<rparr>))))"

subsection \<open>\<^verbatim>\<open>analyzePdfType\<close>\<close>

text \<open>
  The large-image probe, entered when the page has an image opcode: \<open>None\<close> when a \<^verbatim>\<open>get\<close> of
  \<open>Resources\<close> or \<open>XObject\<close> throws (the enclosing \<^verbatim>\<open>catch\<close> takes over), otherwise whether
  the page is flagged. Without a usable \<open>XObject\<close> category the \<^verbatim>\<open>else if\<close> flags the page.
\<close>

definition probeLargeImage :: "resources lookup \<Rightarrow> bool option" where
  "probeLargeImage res =
     (case res of
        Raises \<Rightarrow> None
      | Missing \<Rightarrow> Some True
      | Found resources \<Rightarrow>
          (case XObject resources of
             Raises \<Rightarrow> None
           | Missing \<Rightarrow> Some True
           | Found entries \<Rightarrow> Some (hasLargeImage entries)))"

text \<open>
  The \<^verbatim>\<open>try { ... } catch (e) { }\<close> of the sampling loop: a failing \<^verbatim>\<open>getOperatorList\<close> is
  caught and the page adds nothing; a throw inside the probe is caught after the counts
  were added.
\<close>

definition analyzeOps :: "page \<Rightarrow> analysis_acc \<Rightarrow> analysis_acc" where
  "analyzeOps page acc =
     (case getOperatorList page Display of
        Inl e \<Rightarrow> acc
      | Inr ops \<Rightarrow>
          (let c = countGraphicsObjects ops; acc1 = addCounts c acc
           in if 0 < imageCount c then
                (case probeLargeImage (pageResources page) of
                   Some True \<Rightarrow> acc1\<lparr>pagesWithLargeImages := pagesWithLargeImages acc1 + 1\<rparr>
                 | _ \<Rightarrow> acc1)
              else acc1))"

definition samplePage :: "pdf_document \<Rightarrow> nat \<Rightarrow> analysis_acc \<Rightarrow> analysis_acc action" where
  "samplePage pdf pageNum acc =
     andThen (getPage pdf pageNum) (\<lambda>page.
     andThen (await (getTextContent page)) (\<lambda>items.
     andThen (emit (PageCleanup pageNum)) (\<lambda>_.
     succeed (analyzeOps page (acc\<lparr>totalText := totalText acc + length items\<rparr>)))))"

text \<open>Everything after \<^verbatim>\<open>await pdf.destroy()\<close>: the averages, the decision, the result.\<close>

definition makeAnalysis :: "nat \<Rightarrow> nat \<Rightarrow> analysis_acc \<Rightarrow> pdf_type_analysis" where
  "makeAnalysis numPgs toAnalyze acc =
     (let avgImages = js_div (js_nat (totalImages acc)) (js_nat toAnalyze);
          avgText = js_div (js_nat (totalText acc)) (js_nat toAnalyze);
          avgVectors = js_div (js_nat (totalVectors acc)) (js_nat toAnalyze);
          largeRatio = js_div (js_nat (pagesWithLargeImages acc)) (js_nat toAnalyze);
          verdict = classify avgText avgImages avgVectors
      in \<lparr>type' = fst verdict,
          confidence = snd verdict,
          stats = \<lparr>totalPages = numPgs,
                   sampledPages = toAnalyze,
                   avgImagesPerPage = toFixed2 avgImages,
                   avgVectorsPerPage = toFixed2 avgVectors,
                   avgTextItemsPerPage = toFixed2 avgText,
                   largeImageRatio = toFixed2 largeRatio,
                   estimatedTotalImages = Math_round (js_mul avgImages (js_nat numPgs)),
                   estimatedTotalVectors = Math_round (js_mul avgVectors (js_nat numPgs))\<rparr>\<rparr>)"

definition sampleBudget :: "analyze_options \<Rightarrow> nat" where
  "sampleBudget options = (case samplePages options of None \<Rightarrow> 5 | Some n \<Rightarrow> n)"

definition analyzePdfType ::
  "env \<Rightarrow> pdf_source \<Rightarrow> analyze_options \<Rightarrow> pdf_type_analysis action" where
  "analyzePdfType env pdfSource options =
     andThen (await (loadPdfData env pdfSource)) (\<lambda>data.
     andThen (openDocument env data) (\<lambda>pdf.
     andThen (forEach (samplePage pdf) (samplePageNums (sampleBudget options) (numPages pdf))
                \<lparr>totalImages = 0, totalVectors = 0, totalText = 0,
                 pagesWithLargeImages = 0\<rparr>) (\<lambda>acc.
     andThen (emit DocumentDestroyed) (\<lambda>_.
     succeed (makeAnalysis (numPages pdf)
                (pagesToAnalyze (sampleBudget options) (numPages pdf)) acc)))))"

subsection \<open>\<^verbatim>\<open>extractPdfSmart\<close>\<close>

definition smartPage ::
  "smart_options \<Rightarrow> pdf_document \<Rightarrow> nat \<Rightarrow> extract_acc \<Rightarrow> extract_acc action" where
  "smartPage options pdf pageNum acc =
     andThen (getPage pdf pageNum) (\<lambda>page.
     andThen (await (getTextContent page)) (\<lambda>items.
     andThen (emit (PageCleanup pageNum)) (\<lambda>_.
     andThen (notify (onProgress options) Progress
                (Extracting
                   (js_add (double (1 / 10))
                      (js_mul (js_div (js_nat pageNum) (js_nat (numPages pdf)))
                         (double (9 / 10))))
                   pageNum (numPages pdf))) (\<lambda>_.
     succeed (countFromDictionary (pageResources page)
                (acc\<lparr>fullText := fullText acc @ join space items @ newline\<rparr>))))))"

definition extractPdfSmart ::
  "env \<Rightarrow> pdf_source \<Rightarrow> smart_options \<Rightarrow> pdf_smart_result action" where
  "extractPdfSmart env pdfSource options =
     andThen (notify (onProgress options) Progress Analyzing) (\<lambda>_.
     andThen (analyzePdfType env pdfSource \<lparr>samplePages = Some 5\<rparr>) (\<lambda>analysis.
     andThen (notify (onProgress options) Progress
                (Analyzed (type' analysis) (confidence analysis))) (\<lambda>_.
     andThen (await (loadPdfData env pdfSource)) (\<lambda>data.
     andThen (openDocument env data) (\<lambda>pdf.
     andThen (forEach (smartPage options pdf) [1 ..< Suc (numPages pdf)]
                \<lparr>totalImages = 0, totalVectors = 0, fullText = []\<rparr>) (\<lambda>acc.
     andThen (emit DocumentDestroyed) (\<lambda>_.
     succeed \<lparr>imageCount = totalImages acc, vectorCount = totalVectors acc,
              text' = trim (fullText acc), pages = numPages pdf,
              pdfType = type' analysis, smartConfidence = confidence analysis\<rparr>)))))))"

section \<open>Notions used to state the properties\<close>

text \<open>
  The second half of \<^verbatim>\<open>extractPdfSmart\<close>, from the second \<^verbatim>\<open>loadPdfData\<close> on, for a given
  result of the preliminary analysis.
\<close>

definition smartPass :: "env \<Rightarrow> pdf_source \<Rightarrow> smart_options \<Rightarrow> pdf_type_analysis \<Rightarrow> pdf_smart_result action" where
  "smartPass env pdfSource options analysis =
     andThen (await (loadPdfData env pdfSource)) (\<lambda>data.
     andThen (openDocument env data) (\<lambda>pdf.
     andThen (forEach (smartPage options pdf) [1 ..< Suc (numPages pdf)]
                \<lparr>totalImages = 0, totalVectors = 0, fullText = []\<rparr>) (\<lambda>acc.
     andThen (emit DocumentDestroyed) (\<lambda>_.
     succeed \<lparr>imageCount = totalImages acc, vectorCount = totalVectors acc,
              text' = trim (fullText acc), pages = numPages pdf,
              pdfType = type' analysis, smartConfidence = confidence analysis\<rparr>))))"

text \<open>The events one page of a loop may leave in the trace.\<close>

definition pageEvents :: "nat \<Rightarrow> event set" where
  "pageEvents n = {PageLoaded n, PageCleanup n} \<union> range PageProcessed \<union> range Progress"

text \<open>
  A run that disposes of its document exactly once, as its last action, when it succeeds,
  and never when it fails.
\<close>

definition destroyedOnSuccessOnly :: "'a action \<Rightarrow> bool" where
  "destroyedOnSuccessOnly m =
     (if failed m then destroys (trace m) = 0
      else destroys (trace m) = 1 \<and> opens (trace m) = 1 \<and> last (trace m) = DocumentDestroyed)"

text \<open>
  A page whose failing \<^verbatim>\<open>getOperatorList\<close> is replaced by an empty instruction stream, and
  the same for every page of a document and every document of an environment.
\<close>

definition emptyOnFailure :: "page \<Rightarrow> page" where
  "emptyOnFailure pg =
     pg\<lparr>getOperatorList :=
          (\<lambda>i. case getOperatorList pg i of Inl e \<Rightarrow> Inr [] | Inr ops \<Rightarrow> Inr ops)\<rparr>"

definition recoverDoc :: "pdf_document \<Rightarrow> pdf_document" where
  "recoverDoc pdf = pdf\<lparr>pdfPages := map (map_sum id emptyOnFailure) (pdfPages pdf)\<rparr>"

definition recoverOps :: "env \<Rightarrow> env" where
  "recoverOps env = env\<lparr>getDocument := (\<lambda>data. map_sum id recoverDoc (getDocument env data))\<rparr>"

text \<open>
  The subtype an XObject entry declares, when the entry and its \<open>Subtype\<close> resolve; the
  entries of a category that is present; the number of entries declaring a given subtype;
  and what one page's resource dictionary adds to totals that start at zero.
\<close>

definition declaredSubtype :: "xobj_value lookup \<Rightarrow> string option" where
  "declaredSubtype entry =
     (case entry of
        Found (IsDict xobj) \<Rightarrow> (case Subtype xobj of Found subtype \<Rightarrow> Some subtype | _ \<Rightarrow> None)
      | _ \<Rightarrow> None)"

definition entriesOf :: "'a list lookup \<Rightarrow> 'a list" where
  "entriesOf category = (case category of Found entries \<Rightarrow> entries | _ \<Rightarrow> [])"

definition declaredCount :: "string \<Rightarrow> (string \<times> xobj_value lookup) list \<Rightarrow> nat" where
  "declaredCount subtype entries =
     length (filter (\<lambda>(key, entry). declaredSubtype entry = Some subtype) entries)"

definition dictCounts :: "resources lookup \<Rightarrow> totals" where
  "dictCounts res = countFromDictionary res \<lparr>totalImages = 0, totalVectors = 0\<rparr>"

text \<open>A number that is not NaN and not below zero.\<close>

definition nonneg :: "jsnum \<Rightarrow> bool" where
  "nonneg x = (case x of Num y \<Rightarrow> 0 \<le> y | PosInf \<Rightarrow> True | _ \<Rightarrow> False)"

subsection \<open>Example collaborators\<close>

text \<open>
  An environment whose parser opens every byte source as the given pages, pages whose
  collaborators all succeed, a page whose instruction stream cannot be materialized, a
  callback that throws and one that returns, and resource dictionaries with failing
  lookups.
\<close>

definition serving :: "(error + page) list \<Rightarrow> env" where
  "serving pgs = \<lparr>readFileSync = (\<lambda>path. Inl FileError),
                  getDocument = (\<lambda>data. Inr \<lparr>pdfPages = pgs\<rparr>)\<rparr>"

definition plainPage :: page where
  "plainPage = \<lparr>getTextContent = Inr [utf16 ''Hello'', utf16 ''world''],
                getOperatorList = (\<lambda>i. Inr [moveTo, lineTo, stroke]),
                pageResources = Missing\<rparr>"

definition brokenOpsPage :: page where
  "brokenOpsPage = \<lparr>getTextContent = Inr [utf16 ''Hello'', utf16 ''world''],
                    getOperatorList = (\<lambda>i. Inl OperatorListError),
                    pageResources = Missing\<rparr>"

definition throwingCallback :: "'i callback" where
  "throwingCallback info = Some CallbackError"

definition noPageOptions :: page_options where
  "noPageOptions = \<lparr>onPageProcessed = None, extractText = None\<rparr>"

definition imageEntry :: "xobj_value lookup" where
  "imageEntry = Found (IsDict \<lparr>Subtype = Found ''Image'', Width = Found 2480, Height = Found 3508\<rparr>)"

definition formEntry :: "xobj_value lookup" where
  "formEntry = Found (IsDict \<lparr>Subtype = Found ''Form'', Width = Missing, Height = Missing\<rparr>)"

definition mixedResources :: resources where
  "mixedResources =
     \<lparr>XObject = Found [(''Im0'', imageEntry), (''Bad'', Raises), (''Odd'', Found NotADict),
                       (''Fm0'', formEntry), (''Im1'', imageEntry)],
      Pattern = Found [''P0''],
      Shading = Found [''Sh0'', ''Sh1'']\<rparr>"

definition brokenShadingResources :: resources where
  "brokenShadingResources =
     \<lparr>XObject = Found [], Pattern = Found [''P0''], Shading = Raises\<rparr>"

definition scannedPage :: page where
  "scannedPage = \<lparr>getTextContent = Inr [utf16 ''Scanned''],
                  getOperatorList = (\<lambda>i. Inr [paintImageXObject, moveTo, lineTo, stroke]),
                  pageResources = Found mixedResources\<rparr>"

definition vectorPage :: page where
  "vectorPage = \<lparr>getTextContent = Inr [utf16 ''Drawing''],
                 getOperatorList = (\<lambda>i. Inr [moveTo, lineTo, stroke]),
                 pageResources = Found mixedResources\<rparr>"

definition textPage :: page where
  "textPage = \<lparr>getTextContent = Inr [utf16 ''Plain'', utf16 ''text''],
               getOperatorList = (\<lambda>i. Inr []),
               pageResources = Found mixedResources\<rparr>"

definition quietCallback :: "'i callback" where
  "quietCallback info = None"

definition exampleDocument :: pdf_document where
  "exampleDocument = \<lparr>pdfPages = [Inr scannedPage, Inr plainPage]\<rparr>"

section \<open>Properties of the object counter\<close>

lemma mem_ops_simps:
  "op \<in> set IMAGE_OPS \<longleftrightarrow> op = paintImageXObject \<or> op = paintInlineImageXObject \<or> op = paintImageMaskXObject"
  "op \<in> set TERMINATOR_OPS \<longleftrightarrow> op = stroke \<or> op = fill \<or> op = eoFill \<or> op = fillStroke \<or> op = eoFillStroke"
  "op \<in> set PATH_SEGMENT_OPS \<longleftrightarrow> op = closePath \<or> op = rectangle \<or> op = moveTo \<or> op = lineTo \<or> op = curveTo \<or> op = curveTo2 \<or> op = curveTo3"
  "op \<in> set VECTOR_OPS \<longleftrightarrow> op \<in> set TERMINATOR_OPS \<or> op \<in> set PATH_SEGMENT_OPS \<or> op = constructPath"
  by (auto simp: IMAGE_OPS_def TERMINATOR_OPS_def PATH_SEGMENT_OPS_def VECTOR_OPS_def)

lemma scan_step_constructPath:
  "scan_step constructPath s = s\<lparr>vectorCount := vectorCount s + 1, inVectorSequence := True\<rparr>"
  by (simp add: scan_step_def mem_ops_simps)

lemma scan_step_segment:
  "op \<in> set PATH_SEGMENT_OPS \<Longrightarrow> scan_step op s = s\<lparr>inVectorSequence := True\<rparr>"
  by (auto simp: scan_step_def mem_ops_simps)

lemma scan_step_terminator:
  "t \<in> set TERMINATOR_OPS \<Longrightarrow>
   scan_step t s = (if inVectorSequence s
                    then s\<lparr>vectorCount := vectorCount s + 1, inVectorSequence := False\<rparr> else s)"
  by (auto simp: scan_step_def mem_ops_simps)

lemma scan_loop_append: "scan_loop (xs @ ys) s = scan_loop ys (scan_loop xs s)"
  by (induction xs arbitrary: s) simp_all

lemma scan_loop_segments:
  "set segs \<subseteq> set PATH_SEGMENT_OPS \<Longrightarrow> segs \<noteq> [] \<Longrightarrow>
   scan_loop segs s = s\<lparr>inVectorSequence := True\<rparr>"
proof (induction segs arbitrary: s)
  case Nil
  then show ?case by simp
next
  case (Cons a segs)
  then have a: "scan_step a s = s\<lparr>inVectorSequence := True\<rparr>"
    by (simp add: scan_step_segment)
  show ?case
  proof (cases "segs = []")
    case True
    then show ?thesis using a by simp
  next
    case False
    then show ?thesis using Cons a by simp
  qed
qed

text \<open>
  Claim C1 (as the code behaves). Every \<open>constructPath\<close> adds 1 to \<open>vectorCount\<close> at once, but
  the \<^verbatim>\<open>else\<close> of the terminator test that follows sets \<open>inVectorSequence\<close> back to true, so
  the scanner is left with an open sequence: a stream of one \<open>constructPath\<close> is counted as
  2 vector objects, and \<open>constructPath\<close> followed by a terminator also yields 2.
\<close>

theorem constructPath_counted_twice:
  "scan_step constructPath s = s\<lparr>vectorCount := vectorCount s + 1, inVectorSequence := True\<rparr>
   \<and> countGraphicsObjects [constructPath] = \<lparr>imageCount = 0, vectorCount = 2\<rparr>
   \<and> countGraphicsObjects [constructPath, stroke] = \<lparr>imageCount = 0, vectorCount = 2\<rparr>"
  by (simp add: scan_step_constructPath countGraphicsObjects_def scan_init_def
      scan_step_terminator mem_ops_simps(2))

text \<open>
  Claim C7. A non-empty run of path-segment opcodes followed by one terminator is counted as
  exactly one vector object and no image; a terminator met with no open sequence leaves the
  scanner state unchanged; and a run of path-segment opcodes left open at the end of any
  stream adds exactly one to the vector count the loop had reached before it.
\<close>

theorem path_segments_then_terminator:
  assumes "segs \<noteq> []" and "set segs \<subseteq> set PATH_SEGMENT_OPS" and "t \<in> set TERMINATOR_OPS"
  shows "countGraphicsObjects (segs @ [t]) = \<lparr>imageCount = 0, vectorCount = 1\<rparr>
       \<and> (\<not> inVectorSequence s \<longrightarrow> scan_step t s = s)
       \<and> countGraphicsObjects (ops @ segs) =
           \<lparr>imageCount = imageCount (scan_loop ops scan_init),
            vectorCount = vectorCount (scan_loop ops scan_init) + 1\<rparr>"
  using assms
  by (simp add: countGraphicsObjects_def scan_loop_append scan_loop_segments
      scan_step_terminator scan_init_def)

theorem path_segments_then_terminator_witness:
  "[moveTo, lineTo] \<noteq> [] \<and> set [moveTo, lineTo] \<subseteq> set PATH_SEGMENT_OPS \<and> stroke \<in> set TERMINATOR_OPS
   \<and> countGraphicsObjects ([moveTo, lineTo] @ [stroke]) = \<lparr>imageCount = 0, vectorCount = 1\<rparr>
   \<and> \<not> inVectorSequence scan_init
   \<and> scan_step stroke scan_init = scan_init
   \<and> countGraphicsObjects ([paintImageXObject] @ [moveTo, lineTo]) = \<lparr>imageCount = 1, vectorCount = 1\<rparr>"
  using path_segments_then_terminator [of "[moveTo, lineTo]" stroke scan_init "[paintImageXObject]"]
  by (simp add: mem_ops_simps scan_init_def scan_step_def)

section \<open>Properties of the page sampler\<close>

lemma sample_step_bound:
  assumes "1 \<le> N" "1 \<le> s"
  shows "1 + (pagesToAnalyze s N - 1) * sampleStep s N \<le> N" and "1 \<le> sampleStep s N"
proof -
  let ?n = "pagesToAnalyze s N"
  have n: "1 \<le> ?n" "?n \<le> N" using assms by (simp_all add: pagesToAnalyze_def)
  then have d: "1 \<le> N div ?n" by (simp add: Suc_le_eq div_greater_zero_iff)
  then have st: "sampleStep s N = N div ?n" by (simp add: sampleStep_def)
  have "?n * (N div ?n) \<le> N" by simp
  moreover have "?n * (N div ?n) = (?n - 1) * (N div ?n) + N div ?n"
    using n by (metis Suc_diff_1 Suc_le_eq One_nat_def mult_Suc add.commute)
  ultimately show "1 + (?n - 1) * sampleStep s N \<le> N" unfolding st using d by linarith
  show "1 \<le> sampleStep s N" by (simp add: sampleStep_def)
qed

lemma sample_no_clip:
  assumes "1 \<le> N" "1 \<le> s" "i < pagesToAnalyze s N"
  shows "1 + i * sampleStep s N \<le> N"
proof -
  have "i \<le> pagesToAnalyze s N - 1" using assms by simp
  then have "i * sampleStep s N \<le> (pagesToAnalyze s N - 1) * sampleStep s N"
    by (rule mult_le_mono1)
  then show ?thesis using sample_step_bound(1)[OF assms(1,2)] by linarith
qed

lemma sample_nth:
  assumes "1 \<le> N" "1 \<le> s" "i < pagesToAnalyze s N"
  shows "samplePageNums s N ! i = 1 + i * sampleStep s N"
  using assms sample_no_clip[OF assms] by (simp add: samplePageNums_def)

text \<open>
  Claim C5. For a document of at least one page and a sample budget of at least one, the
  sampling loop visits exactly \<open>min budget nPages\<close> pages, the \<open>i\<close>-th being
  \<open>min (1 + i * step) nPages\<close> with \<open>step = max 1 (nPages div min budget nPages)\<close>; the
  first is page 1, none lies outside \<open>1..nPages\<close>, and the sequence is strictly increasing
  (hence without duplicates), in particular whenever \<open>budget \<le> nPages\<close>. For 97 pages and a
  budget of 5 the pages are 1, 20, 39, 58, 77.
\<close>

theorem samplePageNums_spec:
  assumes "1 \<le> nPages" and "1 \<le> budget"
  shows "length (samplePageNums budget nPages) = min budget nPages
       \<and> (\<forall>i < min budget nPages.
            samplePageNums budget nPages ! i =
              min (1 + i * max 1 (nPages div min budget nPages)) nPages)
       \<and> hd (samplePageNums budget nPages) = 1
       \<and> (\<forall>p \<in> set (samplePageNums budget nPages). 1 \<le> p \<and> p \<le> nPages)
       \<and> sorted_wrt (<) (samplePageNums budget nPages)
       \<and> distinct (samplePageNums budget nPages)
       \<and> samplePageNums 5 97 = [1, 20, 39, 58, 77]"
proof -
  let ?xs = "samplePageNums budget nPages"
  let ?n = "pagesToAnalyze budget nPages"
  have len: "length ?xs = ?n" by (simp add: samplePageNums_def)
  have n: "?n = min budget nPages" by (simp add: pagesToAnalyze_def)
  have npos: "0 < ?n" using assms by (simp add: pagesToAnalyze_def)
  have c1: "length ?xs = min budget nPages" using len n by simp
  have c2: "\<forall>i < min budget nPages.
            ?xs ! i = min (1 + i * max 1 (nPages div min budget nPages)) nPages"
    by (simp add: samplePageNums_def sampleStep_def pagesToAnalyze_def)
  have "?xs ! 0 = 1" using sample_nth[OF assms npos] by simp
  moreover have "?xs \<noteq> []" using len npos by auto
  ultimately have c3: "hd ?xs = 1" by (simp add: hd_conv_nth)
  have c4: "\<forall>p \<in> set ?xs. 1 \<le> p \<and> p \<le> nPages"
    using assms by (auto simp: samplePageNums_def)
  have c5: "sorted_wrt (<) ?xs"
  proof (subst sorted_wrt_iff_nth_less, intro allI impI)
    fix i j assume ij: "i < j" "j < length ?xs"
    then have "i < ?n" "j < ?n" using len by simp_all
    then have "?xs ! i = 1 + i * sampleStep budget nPages"
      "?xs ! j = 1 + j * sampleStep budget nPages"
      using sample_nth[OF assms] by simp_all
    moreover have "i * sampleStep budget nPages < j * sampleStep budget nPages"
      using ij(1) sample_step_bound(2)[OF assms] by simp
    ultimately show "?xs ! i < ?xs ! j" by simp
  qed
  then have c6: "distinct ?xs" by (simp add: strict_sorted_iff)
  have c7: "samplePageNums 5 97 = [1, 20, 39, 58, 77]"
    by code_simp
  show ?thesis using c1 c2 c3 c4 c5 c6 c7 by blast
qed


theorem samplePageNums_spec_witness:
  "(1::nat) \<le> 97 \<and> (1::nat) \<le> 5
   \<and> length (samplePageNums 5 97) = 5
   \<and> hd (samplePageNums 5 97) = 1
   \<and> samplePageNums 5 97 = [1, 20, 39, 58, 77]
   \<and> sorted_wrt (<) (samplePageNums 5 97)
   \<and> distinct (samplePageNums 5 97)"
  using samplePageNums_spec [of 97 5] by simp

section \<open>Properties of the classifier\<close>

lemma js_NaN [simp]:
  "js_add x NaN = NaN" "js_add NaN x = NaN"
  "js_mul x NaN = NaN" "js_mul NaN x = NaN"
  "js_div x NaN = NaN" "js_div NaN x = NaN"
  "js_lt x NaN = False" "js_lt NaN x = False"
  by (cases x; simp)+



lemma roundHalfEven_nonneg: "0 \<le> y \<Longrightarrow> 0 \<le> roundHalfEven y"
  by (auto simp: roundHalfEven_def Let_def)

lemma pow2_pos: "0 < pow2 e"
  by (simp add: pow2_def)

lemma nonneg_double: "0 \<le> x \<Longrightarrow> nonneg (double x)"
proof (cases "x = 0")
  case True
  then show ?thesis by (simp add: double_def nonneg_def)
next
  case False
  assume "0 \<le> x"
  with False have x: "0 < x" by simp
  have "0 \<le> \<bar>x\<bar> / pow2 e" for e
    using pow2_pos[of e] by simp
  then have "0 \<le> rat_of_int (roundHalfEven (\<bar>x\<bar> / pow2 e)) * pow2 e" for e
    using roundHalfEven_nonneg[of "\<bar>x\<bar> / pow2 e"] pow2_pos[of e] by simp
  then show ?thesis
    using x by (simp add: double_def nonneg_def Let_def)
qed

lemma nonneg_ops:
  "0 \<le> a \<Longrightarrow> 0 < b \<Longrightarrow> nonneg (js_div (Num a) (Num b))"
  "nonneg x \<Longrightarrow> 0 < b \<Longrightarrow> nonneg (js_div x (Num b))"
  "nonneg x \<Longrightarrow> 0 < b \<Longrightarrow> nonneg (js_mul x (Num b))"
  "nonneg x \<Longrightarrow> nonneg y \<Longrightarrow> nonneg (js_add x y)"
  "nonneg x \<Longrightarrow> nonneg (Math_round x)"
proof -
  show "0 \<le> a \<Longrightarrow> 0 < b \<Longrightarrow> nonneg (js_div (Num a) (Num b))"
    by (simp add: nonneg_double)
  show "nonneg x \<Longrightarrow> 0 < b \<Longrightarrow> nonneg (js_div x (Num b))"
    by (cases x) (simp_all add: nonneg_def[of "Num _"] nonneg_def[of PosInf] nonneg_def[of NegInf]
        nonneg_def[of NaN] nonneg_double)
  show "nonneg x \<Longrightarrow> 0 < b \<Longrightarrow> nonneg (js_mul x (Num b))"
    by (cases x) (simp_all add: nonneg_def[of "Num _"] nonneg_def[of PosInf] nonneg_def[of NegInf]
        nonneg_def[of NaN] nonneg_double)
  show "nonneg x \<Longrightarrow> nonneg y \<Longrightarrow> nonneg (js_add x y)"
    by (cases x; cases y) (simp_all add: nonneg_def[of "Num _"] nonneg_def[of PosInf]
        nonneg_def[of NegInf] nonneg_def[of NaN] nonneg_double)
  show "nonneg x \<Longrightarrow> nonneg (Math_round x)"
    by (cases x) (simp_all add: nonneg_def)
qed

lemma double_literals:
  "double (95 / 100) = Num (4278419646001971 / 4503599627370496)"
  "double (9 / 10) = Num (8106479329266893 / 9007199254740992)"
  "double (7 / 10) = Num (3152519739159347 / 4503599627370496)"
  "double (6 / 10) = Num (5404319552844595 / 9007199254740992)"
  "double (25 / 100) = Num (1 / 4)"
  "double (2 / 10) = Num (3602879701896397 / 18014398509481984)"
  "double (3 / 10) = Num (5404319552844595 / 18014398509481984)"
  by code_simp+

lemma Math_min_range:
  assumes "nonneg x" and "0 \<le> c" and "c \<le> 1"
  shows "\<exists>r. Math_min (Num c) x = Num r \<and> 0 \<le> r \<and> r \<le> 1"
  using assms by (cases x) (auto simp: Math_min_def nonneg_def)

lemma classify_range:
  assumes "nonneg t" "nonneg i" "nonneg v"
  shows "\<exists>c. snd (classify t i v) = Num c \<and> 0 \<le> c \<and> c \<le> 1"
proof -
  have k: "nonneg (Num k)" if "0 \<le> k" for k
    using that by (simp add: nonneg_def)
  have s: "nonneg (js_add (Num a) (js_mul (js_div x (Num b)) (Num c)))"
    if "nonneg x" "0 \<le> a" "0 < b" "0 < c" for x a b c
    using that by (intro nonneg_ops k) simp_all
  show ?thesis
    unfolding classify_def double_literals
    by (auto intro!: Math_min_range s assms)
qed

section \<open>Properties of the dictionary-based counting\<close>

lemma countXObjects_images:
  "totalImages (countXObjects es acc) = totalImages acc + declaredCount ''Image'' es"
proof (induction es arbitrary: acc)
  case Nil
  then show ?case by (simp add: declaredCount_def)
next
  case (Cons a es)
  obtain key entry where a: "a = (key, entry)" by (cases a)
  show ?case
    unfolding a
    by (simp add: Cons.IH declaredCount_def declaredSubtype_def
        split: lookup.splits xobj_value.splits)
qed

lemma countXObjects_vectors:
  "totalVectors (countXObjects es acc) = totalVectors acc + declaredCount ''Form'' es"
proof (induction es arbitrary: acc)
  case Nil
  then show ?case by (simp add: declaredCount_def)
next
  case (Cons a es)
  obtain key entry where a: "a = (key, entry)" by (cases a)
  show ?case
    unfolding a
    by (simp add: Cons.IH declaredCount_def declaredSubtype_def
        split: lookup.splits xobj_value.splits)
qed

lemma addKeys_fields:
  "totalImages (addKeys c acc) = totalImages acc"
  "totalVectors (addKeys c acc) = totalVectors acc + length (entriesOf c)"
  by (simp_all add: addKeys_def entriesOf_def split: lookup.splits)

lemma countFromDictionary_images:
  "totalImages (countFromDictionary res acc) =
     totalImages acc + totalImages (dictCounts res)"
  by (simp add: dictCounts_def countFromDictionary_def countXObjects_images addKeys_fields
      split: lookup.splits)

lemma countFromDictionary_vectors:
  "totalVectors (countFromDictionary res acc) =
     totalVectors acc + totalVectors (dictCounts res)"
  by (simp add: dictCounts_def countFromDictionary_def countXObjects_vectors addKeys_fields
      split: lookup.splits)

text \<open>
  Claim C6 (amended). When the \<open>XObject\<close>, \<open>Pattern\<close> and \<open>Shading\<close> lookups of a page's
  resource dictionary do not throw, the dictionary-based counting adds 1 to the image total
  for each XObject entry that declares subtype \<open>Image\<close>, 1 to the vector total for each
  entry that declares \<open>Form\<close>, and 1 to the vector total for every \<open>Pattern\<close> key and every
  \<open>Shading\<close> key; an XObject entry whose lookup throws or gives nothing usable declares no
  subtype and adds nothing, and the entries after it are still counted. When the \<open>Pattern\<close>
  or the \<open>Shading\<close> lookup throws, only the XObject entries are counted; when the \<open>XObject\<close>
  or the \<open>Resources\<close> lookup throws, or there are no resources, nothing is counted.
\<close>

theorem dictionary_counting:
  "(XObject r \<noteq> Raises \<and> Pattern r \<noteq> Raises \<and> Shading r \<noteq> Raises \<longrightarrow>
      totalImages (countFromDictionary (Found r) acc) =
        totalImages acc + declaredCount ''Image'' (entriesOf (XObject r))
    \<and> totalVectors (countFromDictionary (Found r) acc) =
        totalVectors acc + declaredCount ''Form'' (entriesOf (XObject r))
          + length (entriesOf (Pattern r)) + length (entriesOf (Shading r)))
   \<and> (XObject r \<noteq> Raises \<and> (Pattern r = Raises \<or> Shading r = Raises) \<longrightarrow>
      totalImages (countFromDictionary (Found r) acc) =
        totalImages acc + declaredCount ''Image'' (entriesOf (XObject r))
    \<and> totalVectors (countFromDictionary (Found r) acc) =
        totalVectors acc + declaredCount ''Form'' (entriesOf (XObject r)))
   \<and> (XObject r = Raises \<longrightarrow> countFromDictionary (Found r) acc = acc)
   \<and> countFromDictionary Raises acc = acc
   \<and> countFromDictionary Missing acc = acc"
  by (cases "XObject r"; cases "Pattern r"; cases "Shading r")
     (simp_all add: countFromDictionary_def countXObjects_images countXObjects_vectors
        addKeys_fields entriesOf_def declaredCount_def)

theorem dictionary_counting_witness:
  "XObject mixedResources \<noteq> Raises \<and> Pattern mixedResources \<noteq> Raises
   \<and> Shading mixedResources \<noteq> Raises
   \<and> totalImages (countFromDictionary (Found mixedResources)
         \<lparr>totalImages = 0, totalVectors = 0\<rparr>) = 2
   \<and> totalVectors (countFromDictionary (Found mixedResources)
         \<lparr>totalImages = 0, totalVectors = 0\<rparr>) = 4"
  using dictionary_counting [of mixedResources "\<lparr>totalImages = 0, totalVectors = 0\<rparr>"]
  by (simp add: mixedResources_def entriesOf_def declaredCount_def declaredSubtype_def
      imageEntry_def formEntry_def)

text \<open>
  Claim C6 as stated fails: with one \<open>Pattern\<close> key and a \<open>Shading\<close> lookup that throws,
  the pattern is not counted.
\<close>

theorem shading_failure_drops_patterns:
  "Pattern brokenShadingResources = Found [''P0'']
   \<and> totalVectors (countFromDictionary (Found brokenShadingResources)
         \<lparr>totalImages = 0, totalVectors = 0\<rparr>) = 0"
  by (simp add: brokenShadingResources_def countFromDictionary_def)

section \<open>Runs and their traces\<close>

lemma andThen_Inl [simp]: "andThen (Inl e, tr) f = (Inl e, tr)"
  by (simp add: andThen_def)

lemma andThen_Inr [simp]: "andThen (Inr x, tr) f = (fst (f x), tr @ snd (f x))"
  by (simp add: andThen_def)

lemma andThen_await [simp]:
  "andThen (await r) f = (case r of Inl e \<Rightarrow> (Inl e, []) | Inr x \<Rightarrow> f x)"
  by (simp add: await_def split: sum.splits)

lemma andThen_emit [simp]: "andThen (emit ev) f = (fst (f ()), ev # snd (f ()))"
  by (simp add: emit_def)

lemma andThen_succeed [simp]: "andThen (succeed x) f = f x"
  by (simp add: succeed_def)

lemma andThen_throw [simp]: "andThen (throw e) f = (Inl e, [])"
  by (simp add: throw_def)

lemma andThen_notify [simp]:
  "andThen (notify cb ev info) f =
     (case cb of
        None \<Rightarrow> f ()
      | Some g \<Rightarrow> (case g info of
                     None \<Rightarrow> (fst (f ()), ev info # snd (f ()))
                   | Some e \<Rightarrow> (Inl e, [ev info])))"
  by (simp add: notify_def throw_def succeed_def split: option.splits)

lemma andThen_getPage [simp]:
  "andThen (getPage pdf n) f =
     (case (if 1 \<le> n \<and> n \<le> numPages pdf then pdfPages pdf ! (n - 1) else Inl PageError) of
        Inl e \<Rightarrow> (Inl e, [])
      | Inr page \<Rightarrow> (fst (f page), PageLoaded n # snd (f page)))"
  by (simp add: getPage_def succeed_def split: sum.splits)

lemma andThen_openDocument [simp]:
  "andThen (openDocument env data) f =
     (case getDocument env data of
        Inl e \<Rightarrow> (Inl e, [])
      | Inr pdf \<Rightarrow> (fst (f pdf), DocumentOpened # snd (f pdf)))"
  by (simp add: openDocument_def succeed_def split: sum.splits)

lemma andThen_cases:
  "andThen m f = (case fst m of Inl e \<Rightarrow> (Inl e, snd m) | Inr x \<Rightarrow> (fst (f x), snd m @ snd (f x)))"
  by (cases m) (simp add: andThen_def split: sum.splits)

lemma forEach_events:
  assumes "\<And>n s. set (snd (body n s)) \<subseteq> E n"
  shows "set (snd (forEach body ns s)) \<subseteq> (\<Union>n \<in> set ns. E n)"
proof (induction ns arbitrary: s)
  case Nil
  then show ?case by simp
next
  case (Cons n ns)
  obtain r tr where b: "body n s = (r, tr)" by (cases "body n s")
  have tr: "set tr \<subseteq> E n" using assms[of n s] b by simp
  show ?case
  proof (cases r)
    case (Inl e)
    then show ?thesis using b tr by auto
  next
    case (Inr s')
    then show ?thesis using b tr Cons.IH[of s'] by auto
  qed
qed

lemma dataPage_events: "set (snd (dataPage pdf n acc)) \<subseteq> pageEvents n"
  by (auto simp: dataPage_def pageEvents_def succeed_def split: sum.splits)

lemma streamingPage_events: "set (snd (streamingPage opts pdf n acc)) \<subseteq> pageEvents n"
  by (auto simp: streamingPage_def pageEvents_def succeed_def split: sum.splits option.splits)

lemma statsPage_events: "set (snd (statsPage opts pdf n acc)) \<subseteq> pageEvents n"
  by (auto simp: statsPage_def pageEvents_def succeed_def split: sum.splits option.splits)

lemma samplePage_events: "set (snd (samplePage pdf n acc)) \<subseteq> pageEvents n"
  by (auto simp: samplePage_def pageEvents_def succeed_def split: sum.splits)

lemma smartPage_events: "set (snd (smartPage opts pdf n acc)) \<subseteq> pageEvents n"
  by (auto simp: smartPage_def pageEvents_def succeed_def split: sum.splits option.splits)

lemma destroys_simps [simp]:
  "destroys [] = 0"
  "destroys (ev # tr) = (if ev = DocumentDestroyed then Suc (destroys tr) else destroys tr)"
  "destroys (tr @ tr') = destroys tr + destroys tr'"
  by (induction tr) (auto simp: destroys_def)

lemma opens_simps [simp]:
  "opens [] = 0"
  "opens (ev # tr) = (if ev = DocumentOpened then Suc (opens tr) else opens tr)"
  "opens (tr @ tr') = opens tr + opens tr'"
  by (induction tr) (auto simp: opens_def)

lemma destroys_0: "DocumentDestroyed \<notin> set tr \<Longrightarrow> destroys tr = 0"
  by (simp add: destroys_def)

lemma opens_0: "DocumentOpened \<notin> set tr \<Longrightarrow> opens tr = 0"
  by (simp add: opens_def)

lemma loop_quiet:
  assumes "\<And>n s. set (snd (body n s)) \<subseteq> pageEvents n"
  shows "destroys (snd (forEach body ns s)) = 0" and "opens (snd (forEach body ns s)) = 0"
proof -
  have "set (snd (forEach body ns s)) \<subseteq> (\<Union>n \<in> set ns. pageEvents n)"
    using assms by (rule forEach_events)
  then have "DocumentDestroyed \<notin> set (snd (forEach body ns s))"
    and "DocumentOpened \<notin> set (snd (forEach body ns s))"
    by (auto simp: pageEvents_def)
  then show "destroys (snd (forEach body ns s)) = 0" and "opens (snd (forEach body ns s)) = 0"
    by (simp_all add: destroys_0 opens_0)
qed

text \<open>The common shape of a full-document run.\<close>

lemma document_run:
  assumes run: "run = andThen (await (loadPdfData env src)) (\<lambda>data.
                      andThen (openDocument env data) (\<lambda>pdf.
                      andThen (loop pdf) (\<lambda>acc.
                      andThen (emit DocumentDestroyed) (\<lambda>_.
                      succeed (result pdf acc)))))"
    and quiet: "\<And>pdf. destroys (snd (loop pdf)) = 0" "\<And>pdf. opens (snd (loop pdf)) = 0"
  shows "destroys (snd run) = (if isl (fst run) then 0 else 1)"
    and "\<not> isl (fst run) \<Longrightarrow> last (snd run) = DocumentDestroyed \<and> opens (snd run) = 1"
    and "opens (snd run) \<le> 1"
proof -
  show "destroys (snd run) = (if isl (fst run) then 0 else 1)"
    unfolding run
    by (auto simp: andThen_cases[of "loop _"] succeed_def quiet split: sum.splits)
  show "\<not> isl (fst run) \<Longrightarrow> last (snd run) = DocumentDestroyed \<and> opens (snd run) = 1"
    unfolding run
    by (auto simp: andThen_cases[of "loop _"] succeed_def quiet split: sum.splits)
  show "opens (snd run) \<le> 1"
    unfolding run
    by (auto simp: andThen_cases[of "loop _"] succeed_def quiet split: sum.splits)
qed

lemmas data_run = document_run [OF extractPdfData_def loop_quiet[OF dataPage_events]]
lemmas streaming_run = document_run [OF extractPdfDataStreaming_def loop_quiet[OF streamingPage_events]]
lemmas stats_run = document_run [OF extractPdfStats_def loop_quiet[OF statsPage_events]]
lemmas analyze_run = document_run [OF analyzePdfType_def loop_quiet[OF samplePage_events]]

lemmas smartPass_run = document_run [OF smartPass_def loop_quiet[OF smartPage_events]]

lemma extractPdfSmart_phases:
  "extractPdfSmart env src options =
     andThen (notify (onProgress options) Progress Analyzing) (\<lambda>_.
     andThen (analyzePdfType env src \<lparr>samplePages = Some 5\<rparr>) (\<lambda>analysis.
     andThen (notify (onProgress options) Progress
                (Analyzed (type' analysis) (confidence analysis))) (\<lambda>_.
     smartPass env src options analysis)))"
  by (simp add: extractPdfSmart_def smartPass_def)

lemma smart_run:
  "if isl (fst (extractPdfSmart env src options))
   then destroys (snd (extractPdfSmart env src options)) \<le> 1
      \<and> (opens (snd (extractPdfSmart env src options)) = 2
           \<longrightarrow> destroys (snd (extractPdfSmart env src options)) = 1)
   else destroys (snd (extractPdfSmart env src options)) = 2
      \<and> opens (snd (extractPdfSmart env src options)) = 2
      \<and> last (snd (extractPdfSmart env src options)) = DocumentDestroyed"
proof -
  let ?A = "analyzePdfType env src \<lparr>samplePages = Some 5\<rparr>"
  note a = analyze_run[of env src "\<lparr>samplePages = Some 5\<rparr>"]
  have p: "destroys (snd (smartPass env src options an)) = (if isl (fst (smartPass env src options an)) then 0 else 1)"
    "\<not> isl (fst (smartPass env src options an)) \<Longrightarrow> last (snd (smartPass env src options an)) = DocumentDestroyed \<and> opens (snd (smartPass env src options an)) = 1"
    "opens (snd (smartPass env src options an)) \<le> 1" for an
    using smartPass_run[of env src options an] by simp_all
  have ne: "\<not> isl (fst (smartPass env src options an)) \<Longrightarrow> snd (smartPass env src options an) \<noteq> []" for an
    using p(2)[of an] by auto
  show ?thesis
  proof (cases "fst ?A")
    case (Inl e)
    then show ?thesis using a(1) a(3)
      by (auto simp: extractPdfSmart_phases andThen_cases[of ?A] split: option.splits)
  next
    case (Inr an)
    then have d: "destroys (snd ?A) = 1" "opens (snd ?A) = 1" using a(1) a(2) by auto
    show ?thesis
    proof (cases "isl (fst (smartPass env src options an))")
      case True
      then show ?thesis using Inr d p(1)[of an] p(3)[of an]
        by (auto simp: extractPdfSmart_phases andThen_cases[of ?A] split: option.splits)
    next
      case False
      then show ?thesis using Inr d p(1)[of an] p(2)[of an] ne[of an]
        by (auto simp: extractPdfSmart_phases andThen_cases[of ?A] split: option.splits)
    qed
  qed
qed

lemma destroyedOnSuccessOnlyI:
  assumes "destroys (snd m) = (if isl (fst m) then 0 else 1)"
    and "\<not> isl (fst m) \<Longrightarrow> last (snd m) = DocumentDestroyed \<and> opens (snd m) = 1"
  shows "destroyedOnSuccessOnly m"
  using assms by (auto simp: destroyedOnSuccessOnly_def failed_def outcome_def trace_def)

lemma run_simps:
  "loadPdfData env (NodeBuffer b) = Inr b"
  "loadPdfData env (PlainUint8Array b) = Inl InvalidSource"
  "getDocument (serving pgs) d = Inr \<lparr>pdfPages = pgs\<rparr>"
  "numPages \<lparr>pdfPages = pgs\<rparr> = length pgs"
  by (simp_all add: loadPdfData_def serving_def numPages_def)

lemmas entry_defs =
  extractPdfData_def extractPdfDataStreaming_def extractPdfStats_def analyzePdfType_def
  extractPdfSmart_def

lemmas page_defs =
  dataPage_def streamingPage_def statsPage_def samplePage_def smartPage_def

lemmas fixture_defs =
  plainPage_def brokenOpsPage_def throwingCallback_def noPageOptions_def

lemmas obs_defs = outcome_def trace_def failed_def

section \<open>Document disposal\<close>

text \<open>
  Claim C2 (amended). \<^verbatim>\<open>extractPdfData\<close>, \<^verbatim>\<open>extractPdfDataStreaming\<close>, \<^verbatim>\<open>extractPdfStats\<close> and
  \<^verbatim>\<open>analyzePdfType\<close> dispose of their document exactly once, as the last action of the run,
  when the run succeeds, and never when it fails. \<^verbatim>\<open>extractPdfSmart\<close> opens two documents
  and, when it succeeds, has disposed of both, the second as its last action; when it fails,
  at most the document of the preliminary analysis has been disposed of, and a failure
  while the second document is open leaves that one undisposed.
\<close>

theorem destroy_on_success_only:
  "destroyedOnSuccessOnly (extractPdfData env src)
   \<and> destroyedOnSuccessOnly (extractPdfDataStreaming env src popts)
   \<and> destroyedOnSuccessOnly (extractPdfStats env src popts)
   \<and> destroyedOnSuccessOnly (analyzePdfType env src aopts)
   \<and> (if failed (extractPdfSmart env src sopts)
      then destroys (trace (extractPdfSmart env src sopts)) \<le> 1
         \<and> (opens (trace (extractPdfSmart env src sopts)) = 2
              \<longrightarrow> destroys (trace (extractPdfSmart env src sopts)) = 1)
      else destroys (trace (extractPdfSmart env src sopts)) = 2
         \<and> opens (trace (extractPdfSmart env src sopts)) = 2
         \<and> last (trace (extractPdfSmart env src sopts)) = DocumentDestroyed)"
proof -
  have "destroyedOnSuccessOnly (extractPdfData env src)"
    by (rule destroyedOnSuccessOnlyI) (rule data_run, rule data_run)
  moreover have "destroyedOnSuccessOnly (extractPdfDataStreaming env src popts)"
    by (rule destroyedOnSuccessOnlyI) (rule streaming_run, rule streaming_run)
  moreover have "destroyedOnSuccessOnly (extractPdfStats env src popts)"
    by (rule destroyedOnSuccessOnlyI) (rule stats_run, rule stats_run)
  moreover have "destroyedOnSuccessOnly (analyzePdfType env src aopts)"
    by (rule destroyedOnSuccessOnlyI) (rule analyze_run, rule analyze_run)
  ultimately show ?thesis
    using smart_run[of env src sopts]
    by (auto simp: failed_def outcome_def trace_def split: if_splits)
qed

theorem destroy_on_success_only_witness:
  "\<not> failed (extractPdfData (serving [Inr plainPage]) (NodeBuffer []))
   \<and> destroys (trace (extractPdfData (serving [Inr plainPage]) (NodeBuffer []))) = 1
   \<and> last (trace (extractPdfData (serving [Inr plainPage]) (NodeBuffer []))) = DocumentDestroyed
   \<and> failed (extractPdfStats (serving [Inr plainPage]) (NodeBuffer [])
         \<lparr>onPageProcessed = Some throwingCallback, extractText = None\<rparr>)
   \<and> destroys (trace (extractPdfStats (serving [Inr plainPage]) (NodeBuffer [])
         \<lparr>onPageProcessed = Some throwingCallback, extractText = None\<rparr>)) = 0
   \<and> \<not> failed (extractPdfSmart (serving [Inr plainPage]) (NodeBuffer []) \<lparr>onProgress = None\<rparr>)
   \<and> destroys (trace (extractPdfSmart (serving [Inr plainPage]) (NodeBuffer [])
         \<lparr>onProgress = None\<rparr>)) = 2"
proof -
  have a: "\<not> failed (extractPdfData (serving [Inr plainPage]) (NodeBuffer []))"
    by (simp add: obs_defs entry_defs page_defs run_simps fixture_defs succeed_def)
  have b: "failed (extractPdfStats (serving [Inr plainPage]) (NodeBuffer [])
         \<lparr>onPageProcessed = Some throwingCallback, extractText = None\<rparr>)"
    by (simp add: obs_defs entry_defs page_defs run_simps fixture_defs succeed_def wantsText_def)
  have c: "\<not> failed (extractPdfSmart (serving [Inr plainPage]) (NodeBuffer []) \<lparr>onProgress = None\<rparr>)"
    by (simp add: obs_defs entry_defs page_defs run_simps fixture_defs succeed_def
        samplePageNums_def pagesToAnalyze_def sampleStep_def sampleBudget_def)
  show ?thesis
    using a b c
      destroy_on_success_only [of "serving [Inr plainPage]" "NodeBuffer []"
              "\<lparr>onPageProcessed = Some throwingCallback, extractText = None\<rparr>"
              "\<lparr>samplePages = None\<rparr>" "\<lparr>onProgress = None\<rparr>"]
    by (simp add: destroyedOnSuccessOnly_def)
qed

text \<open>
  Claim C2 as stated fails: a page that cannot be loaded, an instruction stream that cannot
  be materialized and a throwing callback each end the run with the document opened and
  never disposed of.
\<close>

theorem destroy_skipped_on_failure:
  "outcome (extractPdfData (serving [Inl PageError]) (NodeBuffer [])) = Inl PageError
   \<and> trace (extractPdfData (serving [Inl PageError]) (NodeBuffer [])) = [DocumentOpened]
   \<and> destroys (trace (extractPdfData (serving [Inl PageError]) (NodeBuffer []))) = 0
   \<and> outcome (extractPdfData (serving [Inr brokenOpsPage]) (NodeBuffer [])) = Inl OperatorListError
   \<and> trace (extractPdfData (serving [Inr brokenOpsPage]) (NodeBuffer []))
       = [DocumentOpened, PageLoaded 1]
   \<and> outcome (extractPdfDataStreaming (serving [Inr plainPage]) (NodeBuffer [])
         \<lparr>onPageProcessed = Some throwingCallback, extractText = None\<rparr>) = Inl CallbackError
   \<and> destroys (trace (extractPdfDataStreaming (serving [Inr plainPage]) (NodeBuffer [])
         \<lparr>onPageProcessed = Some throwingCallback, extractText = None\<rparr>)) = 0"
  by (simp add: outcome_def trace_def extractPdfData_def extractPdfDataStreaming_def run_simps
      dataPage_def streamingPage_def brokenOpsPage_def plainPage_def throwingCallback_def
      wantsText_def succeed_def)

section \<open>Rejected byte sources\<close>

text \<open>
  Claim C10 (amended). Given a \<^verbatim>\<open>Uint8Array\<close> that is not a \<^verbatim>\<open>Buffer\<close>, every entry point
  fails before any document is opened or page processed. The failure is the loader's
  \<open>InvalidSource\<close>, except that \<^verbatim>\<open>extractPdfSmart\<close> first notifies \<^verbatim>\<open>onProgress\<close> of the
  \<open>analyzing\<close> stage, and when that callback throws, its error is the one that
  propagates.
\<close>

theorem plain_Uint8Array_rejected:
  "extractPdfData env (PlainUint8Array b) = (Inl InvalidSource, [])
   \<and> extractPdfDataStreaming env (PlainUint8Array b) popts = (Inl InvalidSource, [])
   \<and> extractPdfStats env (PlainUint8Array b) popts = (Inl InvalidSource, [])
   \<and> analyzePdfType env (PlainUint8Array b) aopts = (Inl InvalidSource, [])
   \<and> extractPdfSmart env (PlainUint8Array b) sopts =
       (case onProgress sopts of
          None \<Rightarrow> (Inl InvalidSource, [])
        | Some cb \<Rightarrow>
            (case cb Analyzing of
               None \<Rightarrow> (Inl InvalidSource, [Progress Analyzing])
             | Some e \<Rightarrow> (Inl e, [Progress Analyzing])))"
  by (simp add: entry_defs run_simps split: option.splits)

text \<open>
  Claim C10 as stated fails for \<^verbatim>\<open>extractPdfSmart\<close> with a throwing \<^verbatim>\<open>onProgress\<close>: the run
  fails with the callback's error, not with \<open>InvalidSource\<close>.
\<close>

theorem smart_callback_error_comes_first:
  "outcome (extractPdfSmart (serving [Inr plainPage]) (PlainUint8Array [])
      \<lparr>onProgress = Some throwingCallback\<rparr>) = Inl CallbackError
   \<and> Inl CallbackError \<noteq> (Inl InvalidSource :: error + pdf_smart_result)"
  by (simp add: obs_defs entry_defs throwingCallback_def)

section \<open>Failing instruction streams\<close>

lemma forEach_fails:
  assumes "n \<in> set ns" and "\<And>s. isl (fst (body n s))"
  shows "isl (fst (forEach body ns s))"
  using assms(1)
proof (induction ns arbitrary: s)
  case Nil
  then show ?case by simp
next
  case (Cons m ns)
  obtain r tr where b: "body m s = (r, tr)" by (cases "body m s")
  show ?case
  proof (cases r)
    case (Inl e)
    then show ?thesis using b by simp
  next
    case (Inr s')
    then have "m \<noteq> n" using assms(2)[of s] b by auto
    then have "n \<in> set ns" using Cons.prems by simp
    then show ?thesis using Cons.IH[of s'] b Inr by simp
  qed
qed

lemma forEach_stops:
  assumes "\<And>s. isl (fst (body n s))"
  shows "forEach body (xs @ n # ys) s = forEach body (xs @ [n]) s"
proof (induction xs arbitrary: s)
  case Nil
  obtain r tr where b: "body n s = (r, tr)" by (cases "body n s")
  then have "isl r" using assms[of s] by simp
  then show ?case using b by (cases r) simp_all
next
  case (Cons m xs)
  then show ?case by (simp split: prod.splits sum.splits)
qed

lemma upt_split_at:
  assumes "k < N"
  shows "[1 ..< Suc N] = [1 ..< Suc k] @ Suc k # [Suc (Suc k) ..< Suc N]"
proof -
  have "[1 ..< Suc k + (N - k)] = [1 ..< Suc k] @ [Suc k ..< Suc k + (N - k)]"
    by (rule upt_add_eq_append) simp
  moreover have "Suc k + (N - k) = Suc N" using assms by simp
  ultimately have "[1 ..< Suc N] = [1 ..< Suc k] @ [Suc k ..< Suc N]"
    by (simp del: upt_Suc)
  moreover have "[Suc k ..< Suc N] = Suc k # [Suc (Suc k) ..< Suc N]"
    using assms by (intro upt_conv_Cons) simp
  ultimately show ?thesis by (simp del: upt_Suc)
qed

lemma loop_aborts:
  assumes ev: "\<And>n s. set (snd (body n s)) \<subseteq> pageEvents n"
    and fails: "\<And>s. isl (fst (body (Suc k) s))"
    and k: "k < N"
  shows "isl (fst (forEach body [1 ..< Suc N] s))"
    and "\<forall>j > Suc k. PageLoaded j \<notin> set (snd (forEach body [1 ..< Suc N] s))"
proof -
  have mem: "Suc k \<in> set [1 ..< Suc N]" using k by (auto simp del: upt_Suc)
  show "isl (fst (forEach body [1 ..< Suc N] s))"
    using mem fails by (rule forEach_fails)
  have "forEach body [1 ..< Suc N] s = forEach body ([1 ..< Suc k] @ [Suc k]) s"
    unfolding upt_split_at[OF k] using fails by (rule forEach_stops)
  moreover have "set (snd (forEach body ([1 ..< Suc k] @ [Suc k]) s))
                   \<subseteq> (\<Union>n \<in> set ([1 ..< Suc k] @ [Suc k]). pageEvents n)"
    using ev by (rule forEach_events)
  ultimately have "set (snd (forEach body [1 ..< Suc N] s))
                   \<subseteq> (\<Union>n \<in> set ([1 ..< Suc k] @ [Suc k]). pageEvents n)"
    by simp
  then show "\<forall>j > Suc k. PageLoaded j \<notin> set (snd (forEach body [1 ..< Suc N] s))"
    by (auto simp: pageEvents_def)
qed

lemma dataPage_fails:
  assumes "k < numPages pdf" "pdfPages pdf ! k = Inr pg" "getOperatorList pg Display = Inl e"
  shows "isl (fst (dataPage pdf (Suc k) acc))"
  using assms by (simp add: dataPage_def split: sum.splits)

lemma streamingPage_fails:
  assumes "k < numPages pdf" "pdfPages pdf ! k = Inr pg" "getOperatorList pg Display = Inl e"
  shows "isl (fst (streamingPage opts pdf (Suc k) acc))"
  using assms by (simp add: streamingPage_def andThen_cases[of "if _ then _ else _"] succeed_def split: sum.splits)

lemma statsPage_fails:
  assumes "k < numPages pdf" "pdfPages pdf ! k = Inr pg" "getOperatorList pg Print = Inl e"
  shows "isl (fst (statsPage opts pdf (Suc k) acc))"
  using assms by (simp add: statsPage_def andThen_cases[of "if _ then _ else _"] succeed_def split: sum.splits)

lemma document_run_aborts:
  assumes run: "run = andThen (await (loadPdfData env src)) (\<lambda>data.
                      andThen (openDocument env data) (\<lambda>pdf.
                      andThen (forEach (body pdf) [1 ..< Suc (numPages pdf)] init) (\<lambda>acc.
                      andThen (emit DocumentDestroyed) (\<lambda>_.
                      succeed (result pdf acc)))))"
    and ev: "\<And>pdf n s. set (snd (body pdf n s)) \<subseteq> pageEvents n"
    and load: "loadPdfData env src = Inr data" "getDocument env data = Inr pdf"
    and fails: "\<And>s. isl (fst (body pdf (Suc k) s))"
    and k: "k < numPages pdf"
  shows "isl (fst run) \<and> (\<forall>j > Suc k. PageLoaded j \<notin> set (snd run))"
proof -
  note l = loop_aborts[of "body pdf", OF ev fails k, of init]
  obtain e tr where f: "forEach (body pdf) [1 ..< Suc (numPages pdf)] init = (Inl e, tr)"
    using l(1) by (cases "forEach (body pdf) [1 ..< Suc (numPages pdf)] init") (auto simp: isl_def)
  have "run = (Inl e, DocumentOpened # tr)"
    unfolding run by (simp add: load f del: upt_Suc One_nat_def)
  then show ?thesis using l(2) f by (simp del: upt_Suc One_nat_def)
qed

lemma analyzeOps_recover: "analyzeOps (emptyOnFailure pg) acc = analyzeOps pg acc"
proof (cases "getOperatorList pg Display")
  case (Inl e)
  then show ?thesis
    by (simp add: analyzeOps_def emptyOnFailure_def countGraphicsObjects_def scan_init_def
        addCounts_def)
next
  case (Inr ops)
  then show ?thesis by (simp add: analyzeOps_def emptyOnFailure_def Let_def)
qed

lemma getTextContent_recover: "getTextContent (emptyOnFailure pg) = getTextContent pg"
  by (simp add: emptyOnFailure_def)

lemma samplePage_recover: "samplePage (recoverDoc pdf) = samplePage pdf"
proof (intro ext)
  fix n acc
  have np: "numPages (recoverDoc pdf) = numPages pdf"
    by (simp add: numPages_def recoverDoc_def)
  show "samplePage (recoverDoc pdf) n acc = samplePage pdf n acc"
  proof (cases "1 \<le> n \<and> n \<le> numPages pdf")
    case True
    then have "n - 1 < length (pdfPages pdf)" by (cases n) (auto simp: numPages_def)
    then have "pdfPages (recoverDoc pdf) ! (n - 1) = map_sum id emptyOnFailure (pdfPages pdf ! (n - 1))"
      by (simp add: recoverDoc_def)
    then show ?thesis using True
      by (cases "pdfPages pdf ! (n - 1)")
         (simp_all add: samplePage_def np analyzeOps_recover getTextContent_recover
            split: sum.splits)
  next
    case False
    then show ?thesis by (auto simp: samplePage_def np)
  qed
qed

lemma analyzePdfType_recover:
  "analyzePdfType (recoverOps env) src options = analyzePdfType env src options"
proof -
  have l: "loadPdfData (recoverOps env) src = loadPdfData env src"
    by (simp add: loadPdfData_def recoverOps_def split: pdf_source.splits)
  have np: "numPages (recoverDoc pdf) = numPages pdf" for pdf
    by (simp add: numPages_def recoverDoc_def)
  show ?thesis
  proof (cases "loadPdfData env src")
    case (Inl e)
    then show ?thesis by (simp add: analyzePdfType_def l)
  next
    case (Inr data)
    have g: "getDocument (recoverOps env) data = map_sum id recoverDoc (getDocument env data)"
      by (simp add: recoverOps_def)
    show ?thesis
      by (cases "getDocument env data")
         (simp_all add: analyzePdfType_def l Inr g samplePage_recover np)
  qed
qed

lemma smartPage_recover: "smartPage opts (recoverDoc pdf) = smartPage opts pdf"
proof (intro ext)
  fix n acc
  have np: "numPages (recoverDoc pdf) = numPages pdf"
    by (simp add: numPages_def recoverDoc_def)
  have pr: "pageResources (emptyOnFailure pg) = pageResources pg" for pg
    by (simp add: emptyOnFailure_def)
  show "smartPage opts (recoverDoc pdf) n acc = smartPage opts pdf n acc"
  proof (cases "1 \<le> n \<and> n \<le> numPages pdf")
    case True
    then have "n - 1 < length (pdfPages pdf)" by (cases n) (auto simp: numPages_def)
    then have "pdfPages (recoverDoc pdf) ! (n - 1) = map_sum id emptyOnFailure (pdfPages pdf ! (n - 1))"
      by (simp add: recoverDoc_def)
    then show ?thesis using True
      by (cases "pdfPages pdf ! (n - 1)")
         (simp_all add: smartPage_def np pr getTextContent_recover
            split: sum.splits option.splits)
  next
    case False
    then show ?thesis by (auto simp: smartPage_def np)
  qed
qed

lemma extractPdfSmart_recover:
  "extractPdfSmart (recoverOps env) src sopts = extractPdfSmart env src sopts"
proof -
  have l: "loadPdfData (recoverOps env) src = loadPdfData env src"
    by (simp add: loadPdfData_def recoverOps_def split: pdf_source.splits)
  have np: "numPages (recoverDoc pdf) = numPages pdf" for pdf
    by (simp add: numPages_def recoverDoc_def)
  have g: "getDocument (recoverOps env) data = map_sum id recoverDoc (getDocument env data)" for data
    by (simp add: recoverOps_def)
  have "smartPass (recoverOps env) src sopts a = smartPass env src sopts a" for a
  proof (cases "loadPdfData env src")
    case (Inl e)
    then show ?thesis by (simp add: smartPass_def l)
  next
    case (Inr data)
    show ?thesis
      by (cases "getDocument env data")
         (simp_all add: smartPass_def l Inr g smartPage_recover np del: upt_Suc)
  qed
  then show ?thesis
    by (simp add: extractPdfSmart_phases analyzePdfType_recover)
qed

text \<open>
  Claim C3 (amended). In \<^verbatim>\<open>extractPdfData\<close>, \<^verbatim>\<open>extractPdfDataStreaming\<close> and
  \<^verbatim>\<open>extractPdfStats\<close>, a page whose instruction stream cannot be materialized makes the whole
  run fail, and no page after it is loaded. In \<^verbatim>\<open>analyzePdfType\<close> the failure is caught: the
  run is exactly the run in which every failing instruction stream is an empty stream, so
  the page adds no image and no vector and sampling goes on. \<^verbatim>\<open>extractPdfSmart\<close>, whose
  full pass reads no instruction stream, behaves in the same way.
\<close>

theorem operator_list_failure_handling:
  assumes "loadPdfData env src = Inr data" and "getDocument env data = Inr pdf"
    and "k < numPages pdf" and "pdfPages pdf ! k = Inr pg"
  shows "(getOperatorList pg Display = Inl e \<longrightarrow>
            failed (extractPdfData env src)
          \<and> (\<forall>j > Suc k. PageLoaded j \<notin> set (trace (extractPdfData env src)))
          \<and> failed (extractPdfDataStreaming env src popts)
          \<and> (\<forall>j > Suc k. PageLoaded j \<notin> set (trace (extractPdfDataStreaming env src popts))))
       \<and> (getOperatorList pg Print = Inl e \<longrightarrow>
            failed (extractPdfStats env src popts)
          \<and> (\<forall>j > Suc k. PageLoaded j \<notin> set (trace (extractPdfStats env src popts))))
       \<and> analyzePdfType (recoverOps env) src aopts = analyzePdfType env src aopts
       \<and> extractPdfSmart (recoverOps env) src sopts = extractPdfSmart env src sopts"
proof -
  have d: "failed (extractPdfData env src)
          \<and> (\<forall>j > Suc k. PageLoaded j \<notin> set (trace (extractPdfData env src)))"
    if "getOperatorList pg Display = Inl e"
    unfolding obs_defs
    by (rule document_run_aborts[OF extractPdfData_def dataPage_events assms(1,2) _ assms(3)])
       (rule dataPage_fails[OF assms(3,4) that])
  have s: "failed (extractPdfDataStreaming env src popts)
          \<and> (\<forall>j > Suc k. PageLoaded j \<notin> set (trace (extractPdfDataStreaming env src popts)))"
    if "getOperatorList pg Display = Inl e"
    unfolding obs_defs
    by (rule document_run_aborts[OF extractPdfDataStreaming_def streamingPage_events assms(1,2) _ assms(3)])
       (rule streamingPage_fails[OF assms(3,4) that])
  have t: "failed (extractPdfStats env src popts)
          \<and> (\<forall>j > Suc k. PageLoaded j \<notin> set (trace (extractPdfStats env src popts)))"
    if "getOperatorList pg Print = Inl e"
    unfolding obs_defs
    by (rule document_run_aborts[OF extractPdfStats_def statsPage_events assms(1,2) _ assms(3)])
       (rule statsPage_fails[OF assms(3,4) that])
  show ?thesis using d s t analyzePdfType_recover extractPdfSmart_recover by blast
qed

theorem operator_list_failure_handling_witness:
  "loadPdfData (serving [Inr brokenOpsPage]) (NodeBuffer []) = Inr []
   \<and> getDocument (serving [Inr brokenOpsPage]) [] = Inr \<lparr>pdfPages = [Inr brokenOpsPage]\<rparr>
   \<and> 0 < numPages \<lparr>pdfPages = [Inr brokenOpsPage]\<rparr>
   \<and> pdfPages \<lparr>pdfPages = [Inr brokenOpsPage]\<rparr> ! 0 = Inr brokenOpsPage
   \<and> getOperatorList brokenOpsPage Display = Inl OperatorListError
   \<and> getOperatorList brokenOpsPage Print = Inl OperatorListError
   \<and> failed (extractPdfData (serving [Inr brokenOpsPage]) (NodeBuffer []))
   \<and> failed (extractPdfDataStreaming (serving [Inr brokenOpsPage]) (NodeBuffer []) noPageOptions)
   \<and> failed (extractPdfStats (serving [Inr brokenOpsPage]) (NodeBuffer []) noPageOptions)
   \<and> analyzePdfType (recoverOps (serving [Inr brokenOpsPage])) (NodeBuffer []) \<lparr>samplePages = None\<rparr>
       = analyzePdfType (serving [Inr brokenOpsPage]) (NodeBuffer []) \<lparr>samplePages = None\<rparr>"
proof -
  have h: "loadPdfData (serving [Inr brokenOpsPage]) (NodeBuffer []) = Inr []"
    "getDocument (serving [Inr brokenOpsPage]) [] = Inr \<lparr>pdfPages = [Inr brokenOpsPage]\<rparr>"
    "0 < numPages \<lparr>pdfPages = [Inr brokenOpsPage]\<rparr>"
    "pdfPages \<lparr>pdfPages = [Inr brokenOpsPage]\<rparr> ! 0 = Inr brokenOpsPage"
    by (simp_all add: run_simps)
  have g: "getOperatorList brokenOpsPage Display = Inl OperatorListError"
    "getOperatorList brokenOpsPage Print = Inl OperatorListError"
    by (simp_all add: brokenOpsPage_def)
  show ?thesis
    using h g operator_list_failure_handling [OF h, of OperatorListError noPageOptions
        "\<lparr>samplePages = None\<rparr>" "\<lparr>onProgress = None\<rparr>"]
    by simp
qed

text \<open>
  Claim C3 as stated fails for \<^verbatim>\<open>analyzePdfType\<close>: with a page whose instruction stream
  cannot be materialized the analysis succeeds, having visited and released the page.
\<close>

theorem analysis_swallows_operator_list_failure:
  "getOperatorList brokenOpsPage Display = Inl OperatorListError
   \<and> \<not> failed (analyzePdfType (serving [Inr brokenOpsPage]) (NodeBuffer []) \<lparr>samplePages = None\<rparr>)
   \<and> trace (analyzePdfType (serving [Inr brokenOpsPage]) (NodeBuffer []) \<lparr>samplePages = None\<rparr>)
       = [DocumentOpened, PageLoaded 1, PageCleanup 1, DocumentDestroyed]"
  by (simp add: obs_defs entry_defs page_defs run_simps fixture_defs succeed_def
      samplePageNums_def pagesToAnalyze_def sampleStep_def sampleBudget_def)

section \<open>The range of the analysis result\<close>

text \<open>
  Claim C8 (as the code behaves). With \<^verbatim>\<open>samplePages: 0\<close> no page is sampled, every average
  is \<^verbatim>\<open>0 / 0\<close>, and the result carries NaN as its confidence and as both estimated totals.
\<close>

theorem zero_sample_gives_NaN:
  "analyzePdfType (serving [Inr plainPage]) (NodeBuffer []) \<lparr>samplePages = Some 0\<rparr> =
     (Inr \<lparr>type' = Text, confidence = NaN,
           stats = \<lparr>totalPages = 1, sampledPages = 0,
                    avgImagesPerPage = NaN, avgVectorsPerPage = NaN,
                    avgTextItemsPerPage = NaN, largeImageRatio = NaN,
                    estimatedTotalImages = NaN, estimatedTotalVectors = NaN\<rparr>\<rparr>,
      [DocumentOpened, DocumentDestroyed])"
  by (simp add: entry_defs run_simps samplePageNums_def pagesToAnalyze_def sampleBudget_def
      succeed_def makeAnalysis_def js_nat_def classify_def js_gt_def js_le_def js_eq_def
      Math_min_def)

text \<open>
  For a positive sample budget and a document with at least one page the result is in
  range: the confidence is a number in \<open>[0, 1]\<close> and the estimated totals are not NaN and
  not negative. The sampled page count never exceeds the total page count.
\<close>

lemma analysis_invariants:
  assumes "outcome (analyzePdfType env src aopts) = Inr a"
  shows "sampledPages (stats a) \<le> totalPages (stats a)"
    and "0 < sampleBudget aopts \<Longrightarrow> 0 < totalPages (stats a) \<Longrightarrow>
         (\<exists>c. confidence a = Num c \<and> 0 \<le> c \<and> c \<le> 1)
         \<and> nonneg (estimatedTotalImages (stats a))
         \<and> nonneg (estimatedTotalVectors (stats a))"
proof -
  obtain N acc where a: "a = makeAnalysis N (pagesToAnalyze (sampleBudget aopts) N) acc"
    using assms
    by (auto simp: outcome_def analyzePdfType_def succeed_def
        andThen_cases[of "forEach _ _ _"] split: sum.splits)
  show "sampledPages (stats a) \<le> totalPages (stats a)"
    by (simp add: a makeAnalysis_def Let_def pagesToAnalyze_def)
  assume "0 < sampleBudget aopts" "0 < totalPages (stats a)"
  then have n: "0 < pagesToAnalyze (sampleBudget aopts) N" and N: "0 < N"
    by (simp_all add: a makeAnalysis_def Let_def pagesToAnalyze_def)
  let ?n = "pagesToAnalyze (sampleBudget aopts) N"
  have avg: "nonneg (js_div (js_nat k) (js_nat ?n))" for k
    using n by (simp add: js_nat_def nonneg_double)
  have c: "\<exists>c. snd (classify (js_div (js_nat (totalText acc)) (js_nat ?n))
                            (js_div (js_nat (totalImages acc)) (js_nat ?n))
                            (js_div (js_nat (totalVectors acc)) (js_nat ?n))) = Num c
              \<and> 0 \<le> c \<and> c \<le> 1"
    by (rule classify_range) (rule avg)+
  have e: "nonneg (Math_round (js_mul (js_div (js_nat k) (js_nat ?n)) (js_nat N)))" for k
    using N avg[of k] by (simp add: js_nat_def[of N] nonneg_ops(3,5))
  show "(\<exists>c. confidence a = Num c \<and> 0 \<le> c \<and> c \<le> 1)
         \<and> nonneg (estimatedTotalImages (stats a))
         \<and> nonneg (estimatedTotalVectors (stats a))"
    using c e by (simp add: a makeAnalysis_def Let_def)
qed

section \<open>Smart extraction\<close>

lemma smartPage_success:
  assumes "smartPage opts pdf n acc = (Inr acc', tr)"
  shows "\<exists>pg. 1 \<le> n \<and> n \<le> numPages pdf \<and> pdfPages pdf ! (n - 1) = Inr pg
            \<and> totalImages acc' = totalImages acc + totalImages (dictCounts (pageResources pg))
            \<and> totalVectors acc' = totalVectors acc + totalVectors (dictCounts (pageResources pg))"
  using assms
  by (auto simp: smartPage_def succeed_def countFromDictionary_images countFromDictionary_vectors
      split: sum.splits option.splits if_splits)

lemma smart_loop:
  assumes "forEach (smartPage opts pdf) ns acc = (Inr acc', tr)"
  shows "\<exists>pgs. map (\<lambda>n. pdfPages pdf ! (n - 1)) ns = map Inr pgs
            \<and> totalImages acc' =
                totalImages acc + sum_list (map (\<lambda>pg. totalImages (dictCounts (pageResources pg))) pgs)
            \<and> totalVectors acc' =
                totalVectors acc + sum_list (map (\<lambda>pg. totalVectors (dictCounts (pageResources pg))) pgs)"
  using assms
proof (induction ns arbitrary: acc tr)
  case Nil
  then show ?case by simp
next
  case (Cons n ns)
  obtain r1 tr1 where b: "smartPage opts pdf n acc = (r1, tr1)"
    by (cases "smartPage opts pdf n acc")
  then obtain acc1 where r1: "r1 = Inr acc1"
    using Cons.prems by (cases r1) simp_all
  obtain r2 tr2 where l: "forEach (smartPage opts pdf) ns acc1 = (r2, tr2)"
    by (cases "forEach (smartPage opts pdf) ns acc1")
  then have r2: "r2 = Inr acc'" using Cons.prems b r1 by simp
  obtain pg where pg: "pdfPages pdf ! (n - 1) = Inr pg"
    "totalImages acc1 = totalImages acc + totalImages (dictCounts (pageResources pg))"
    "totalVectors acc1 = totalVectors acc + totalVectors (dictCounts (pageResources pg))"
    using smartPage_success[OF b[unfolded r1]] by blast
  obtain pgs where pgs: "map (\<lambda>n. pdfPages pdf ! (n - 1)) ns = map Inr pgs"
    "totalImages acc' =
       totalImages acc1 + sum_list (map (\<lambda>pg. totalImages (dictCounts (pageResources pg))) pgs)"
    "totalVectors acc' =
       totalVectors acc1 + sum_list (map (\<lambda>pg. totalVectors (dictCounts (pageResources pg))) pgs)"
    using Cons.IH[OF l[unfolded r2]] by blast
  show ?case
    using pg pgs by (intro exI[of _ "pg # pgs"]) simp
qed

lemma all_pages: "map (\<lambda>n. xs ! (n - 1)) [1 ..< Suc (length xs)] = xs"
proof -
  have "[1 ..< Suc (length xs)] = map Suc [0 ..< length xs]"
    by (simp add: map_Suc_upt del: upt_Suc)
  then have "map (\<lambda>n. xs ! (n - 1)) [1 ..< Suc (length xs)] = map (\<lambda>i. xs ! i) [0 ..< length xs]"
    by (simp add: comp_def del: upt_Suc)
  then show ?thesis by (simp add: map_nth del: upt_Suc)
qed

lemma smartPass_success:
  assumes "fst (smartPass env src opts a) = Inr r"
  shows "\<exists>data pdf pgs tr.
           loadPdfData env src = Inr data \<and> getDocument env data = Inr pdf
         \<and> pdfPages pdf = map Inr pgs
         \<and> pages r = length pgs \<and> pdfType r = type' a \<and> smartConfidence r = confidence a
         \<and> imageCount r = sum_list (map (\<lambda>pg. totalImages (dictCounts (pageResources pg))) pgs)
         \<and> vectorCount r = sum_list (map (\<lambda>pg. totalVectors (dictCounts (pageResources pg))) pgs)
         \<and> snd (smartPass env src opts a) = DocumentOpened # tr @ [DocumentDestroyed]
         \<and> opens tr = 0"
proof -
  obtain data where d: "loadPdfData env src = Inr data"
    using assms by (cases "loadPdfData env src") (simp_all add: smartPass_def)
  obtain pdf where p: "getDocument env data = Inr pdf"
    using assms d by (cases "getDocument env data") (simp_all add: smartPass_def)
  let ?loop = "forEach (smartPage opts pdf) [1 ..< Suc (numPages pdf)]
                \<lparr>totalImages = 0, totalVectors = 0, fullText = []\<rparr>"
  obtain lr tr where l: "?loop = (lr, tr)" by (cases ?loop)
  then obtain acc where lr: "lr = Inr acc"
    using assms d p by (cases lr) (simp_all add: smartPass_def del: upt_Suc One_nat_def)
  have r: "r = \<lparr>imageCount = totalImages acc, vectorCount = totalVectors acc,
              text' = trim (fullText acc), pages = numPages pdf,
              pdfType = type' a, smartConfidence = confidence a\<rparr>"
    and t: "snd (smartPass env src opts a) = DocumentOpened # tr @ [DocumentDestroyed]"
    using assms d p l lr by (simp_all add: smartPass_def succeed_def del: upt_Suc One_nat_def)
  obtain pgs where pgs: "map (\<lambda>n. pdfPages pdf ! (n - 1)) [1 ..< Suc (numPages pdf)] = map Inr pgs"
    "totalImages acc = sum_list (map (\<lambda>pg. totalImages (dictCounts (pageResources pg))) pgs)"
    "totalVectors acc = sum_list (map (\<lambda>pg. totalVectors (dictCounts (pageResources pg))) pgs)"
    using smart_loop[OF l[unfolded lr]] by auto
  have pp: "pdfPages pdf = map Inr pgs"
    using pgs(1) all_pages[of "pdfPages pdf"] by (simp add: numPages_def del: upt_Suc One_nat_def)
  then have n: "numPages pdf = length pgs" by (simp add: numPages_def)
  have q: "opens tr = 0"
    using loop_quiet(2)[of "smartPage opts pdf" "[1 ..< Suc (numPages pdf)]"
        "\<lparr>totalImages = 0, totalVectors = 0, fullText = []\<rparr>", OF smartPage_events] l
    by (simp del: upt_Suc One_nat_def)
  show ?thesis
    using d p pp n r t pgs(2,3) q by auto
qed

lemma forEach_succeeds:
  assumes "\<And>n s. n \<in> set ns \<Longrightarrow> \<not> isl (fst (body n s))"
  shows "\<not> isl (fst (forEach body ns s))"
  using assms
proof (induction ns arbitrary: s)
  case Nil
  then show ?case by simp
next
  case (Cons n ns)
  obtain r tr where b: "body n s = (r, tr)" by (cases "body n s")
  then obtain s' where r: "r = Inr s'"
    using Cons.prems[of n s] by (cases r) simp_all
  have "\<not> isl (fst (forEach body ns s'))"
    by (rule Cons.IH) (simp add: Cons.prems)
  then show ?case using b r by simp
qed

lemma page_at:
  assumes "pdfPages pdf = map Inr pgs" and "1 \<le> n" and "n \<le> numPages pdf"
  shows "pdfPages pdf ! (n - 1) = Inr (pgs ! (n - 1))" and "pgs ! (n - 1) \<in> set pgs"
  using assms by (simp_all add: numPages_def)

lemma samplePageNums_range: "n \<in> set (samplePageNums k N) \<Longrightarrow> 1 \<le> n \<and> n \<le> N"
  by (auto simp: samplePageNums_def pagesToAnalyze_def)

lemma samplePage_succeeds:
  assumes "pdfPages pdf = map Inr pgs" and "\<forall>pg \<in> set pgs. \<not> isl (getTextContent pg)"
    and "1 \<le> n" and "n \<le> numPages pdf"
  shows "\<not> isl (fst (samplePage pdf n acc))"
  using page_at[OF assms(1,3,4)] assms(2,3,4)
  by (auto simp: samplePage_def succeed_def split: sum.splits)

lemma smartPage_succeeds:
  assumes "pdfPages pdf = map Inr pgs" and "\<forall>pg \<in> set pgs. \<not> isl (getTextContent pg)"
    and "\<forall>cb info. onProgress opts = Some cb \<longrightarrow> cb info = None"
    and "1 \<le> n" and "n \<le> numPages pdf"
  shows "\<not> isl (fst (smartPage opts pdf n acc))"
  using page_at[OF assms(1,4,5)] assms(2,3,4,5)
  by (auto simp: smartPage_def succeed_def split: sum.splits option.splits)

lemma analysis_succeeds:
  assumes "loadPdfData env src = Inr data" and "getDocument env data = Inr pdf"
    and "pdfPages pdf = map Inr pgs" and "\<forall>pg \<in> set pgs. \<not> isl (getTextContent pg)"
  shows "\<not> isl (fst (analyzePdfType env src aopts))"
proof -
  have "\<not> isl (fst (forEach (samplePage pdf) (samplePageNums (sampleBudget aopts) (numPages pdf))
                      \<lparr>totalImages = 0, totalVectors = 0, totalText = 0,
                       pagesWithLargeImages = 0\<rparr>))"
    by (rule forEach_succeeds)
       (use samplePageNums_range samplePage_succeeds[OF assms(3,4)] in blast)
  then show ?thesis
    by (auto simp: analyzePdfType_def assms(1,2) andThen_cases[of "forEach _ _ _"] succeed_def
        split: sum.splits)
qed

lemma smartPass_succeeds:
  assumes "loadPdfData env src = Inr data" and "getDocument env data = Inr pdf"
    and "pdfPages pdf = map Inr pgs" and "\<forall>pg \<in> set pgs. \<not> isl (getTextContent pg)"
    and "\<forall>cb info. onProgress opts = Some cb \<longrightarrow> cb info = None"
  shows "\<not> isl (fst (smartPass env src opts a))"
proof -
  have "\<not> isl (fst (forEach (smartPage opts pdf) [1 ..< Suc (numPages pdf)]
                      \<lparr>totalImages = 0, totalVectors = 0, fullText = []\<rparr>))"
    by (rule forEach_succeeds) (use smartPage_succeeds[OF assms(3,4,5)] in auto)
  then show ?thesis
    by (auto simp: smartPass_def assms(1,2) andThen_cases[of "forEach _ _ _"] succeed_def
        split: sum.splits simp del: upt_Suc One_nat_def)
qed

lemma smart_succeeds:
  assumes "loadPdfData env src = Inr data" and "getDocument env data = Inr pdf"
    and "pdfPages pdf = map Inr pgs" and "\<forall>pg \<in> set pgs. \<not> isl (getTextContent pg)"
    and "\<forall>cb info. onProgress opts = Some cb \<longrightarrow> cb info = None"
  shows "\<exists>r. fst (extractPdfSmart env src opts) = Inr r"
proof -
  let ?A = "analyzePdfType env src \<lparr>samplePages = Some 5\<rparr>"
  obtain a where a: "fst ?A = Inr a"
    using analysis_succeeds[OF assms(1-4), of "\<lparr>samplePages = Some 5\<rparr>"]
    by (cases "fst ?A") simp_all
  obtain r where r: "fst (smartPass env src opts a) = Inr r"
    using smartPass_succeeds[OF assms, of a] by (cases "fst (smartPass env src opts a)") simp_all
  have "fst (extractPdfSmart env src opts) = Inr r"
    using a r assms(5)
    by (auto simp: extractPdfSmart_phases andThen_cases[of ?A] split: option.splits)
  then show ?thesis ..
qed

lemma smart_result:
  assumes "outcome (extractPdfSmart env src sopts) = Inr r"
  shows "\<exists>a data pdf pgs rest.
           outcome (analyzePdfType env src \<lparr>samplePages = Some 5\<rparr>) = Inr a
         \<and> pdfType r = type' a \<and> smartConfidence r = confidence a
         \<and> loadPdfData env src = Inr data \<and> getDocument env data = Inr pdf
         \<and> pdfPages pdf = map Inr pgs \<and> pages r = length pgs
         \<and> imageCount r = sum_list (map (\<lambda>pg. totalImages (dictCounts (pageResources pg))) pgs)
         \<and> vectorCount r = sum_list (map (\<lambda>pg. totalVectors (dictCounts (pageResources pg))) pgs)
         \<and> trace (extractPdfSmart env src sopts) =
             (case onProgress sopts of None \<Rightarrow> [] | Some cb \<Rightarrow> [Progress Analyzing])
             @ trace (analyzePdfType env src \<lparr>samplePages = Some 5\<rparr>) @ rest
         \<and> opens rest = 1"
proof -
  let ?A = "analyzePdfType env src \<lparr>samplePages = Some 5\<rparr>"
  have ok: "fst (extractPdfSmart env src sopts) = Inr r"
    using assms by (simp add: outcome_def)
  obtain a where a: "fst ?A = Inr a"
    using ok by (cases "fst ?A")
      (auto simp: extractPdfSmart_phases andThen_cases[of ?A] split: option.splits)
  have p: "fst (smartPass env src sopts a) = Inr r"
    using ok a by (auto simp: extractPdfSmart_phases andThen_cases[of ?A] split: option.splits)
  obtain data pdf pgs tr where s:
    "loadPdfData env src = Inr data" "getDocument env data = Inr pdf"
    "pdfPages pdf = map Inr pgs"
    "pages r = length pgs" "pdfType r = type' a" "smartConfidence r = confidence a"
    "imageCount r = sum_list (map (\<lambda>pg. totalImages (dictCounts (pageResources pg))) pgs)"
    "vectorCount r = sum_list (map (\<lambda>pg. totalVectors (dictCounts (pageResources pg))) pgs)"
    "snd (smartPass env src sopts a) = DocumentOpened # tr @ [DocumentDestroyed]"
    "opens tr = 0"
    using smartPass_success[OF p] by blast
  have "\<exists>rest. snd (extractPdfSmart env src sopts) =
             (case onProgress sopts of None \<Rightarrow> [] | Some cb \<Rightarrow> [Progress Analyzing])
             @ snd ?A @ rest \<and> opens rest = 1"
    using ok a s(9,10)
    by (auto simp: extractPdfSmart_phases andThen_cases[of ?A] split: option.splits)
  then show ?thesis
    using a s(1-8) by (auto simp: outcome_def trace_def)
qed

text \<open>
  Claim C9. \<^verbatim>\<open>extractPdfSmart\<close> is the preliminary analysis with a sample budget of 5
  followed by a full pass over the document, whatever type the analysis detects. First,
  it returns a result for every input whose source loads, whose document opens, whose
  pages all load and give their text, and whose progress callback, if there is one, never
  throws: nothing about the detected type is required. Second, every result it returns
  has as \<open>pdfType\<close> and confidence exactly the type and confidence of that analysis, has
  loaded every page of the document, and has as image and vector counts the sums over all
  pages of what the dictionary-based counting gives for the page's resource dictionary;
  the trace is the analysis run followed by the full pass, which opens the document once
  more.
\<close>

theorem smart_extraction_composition:
  "(loadPdfData env src = Inr data \<and> getDocument env data = Inr pdf
      \<and> pdfPages pdf = map Inr pgs
      \<and> (\<forall>pg \<in> set pgs. \<not> isl (getTextContent pg))
      \<and> (\<forall>cb info. onProgress sopts = Some cb \<longrightarrow> cb info = None)
    \<longrightarrow> (\<exists>r. outcome (extractPdfSmart env src sopts) = Inr r))
   \<and> (outcome (extractPdfSmart env src sopts) = Inr r \<longrightarrow>
        (\<exists>a data pdf pgs rest.
           outcome (analyzePdfType env src \<lparr>samplePages = Some 5\<rparr>) = Inr a
         \<and> pdfType r = type' a \<and> smartConfidence r = confidence a
         \<and> loadPdfData env src = Inr data \<and> getDocument env data = Inr pdf
         \<and> pdfPages pdf = map Inr pgs \<and> pages r = length pgs
         \<and> imageCount r = sum_list (map (\<lambda>pg. totalImages (dictCounts (pageResources pg))) pgs)
         \<and> vectorCount r = sum_list (map (\<lambda>pg. totalVectors (dictCounts (pageResources pg))) pgs)
         \<and> trace (extractPdfSmart env src sopts) =
             (case onProgress sopts of None \<Rightarrow> [] | Some cb \<Rightarrow> [Progress Analyzing])
             @ trace (analyzePdfType env src \<lparr>samplePages = Some 5\<rparr>) @ rest
         \<and> opens rest = 1))"
proof (intro conjI impI)
  assume "loadPdfData env src = Inr data \<and> getDocument env data = Inr pdf
      \<and> pdfPages pdf = map Inr pgs
      \<and> (\<forall>pg \<in> set pgs. \<not> isl (getTextContent pg))
      \<and> (\<forall>cb info. onProgress sopts = Some cb \<longrightarrow> cb info = None)"
  then show "\<exists>r. outcome (extractPdfSmart env src sopts) = Inr r"
    unfolding outcome_def by (intro smart_succeeds[of env src data pdf pgs sopts]) simp_all
next
  assume "outcome (extractPdfSmart env src sopts) = Inr r"
  then show "\<exists>a data pdf pgs rest.
           outcome (analyzePdfType env src \<lparr>samplePages = Some 5\<rparr>) = Inr a
         \<and> pdfType r = type' a \<and> smartConfidence r = confidence a
         \<and> loadPdfData env src = Inr data \<and> getDocument env data = Inr pdf
         \<and> pdfPages pdf = map Inr pgs \<and> pages r = length pgs
         \<and> imageCount r = sum_list (map (\<lambda>pg. totalImages (dictCounts (pageResources pg))) pgs)
         \<and> vectorCount r = sum_list (map (\<lambda>pg. totalVectors (dictCounts (pageResources pg))) pgs)
         \<and> trace (extractPdfSmart env src sopts) =
             (case onProgress sopts of None \<Rightarrow> [] | Some cb \<Rightarrow> [Progress Analyzing])
             @ trace (analyzePdfType env src \<lparr>samplePages = Some 5\<rparr>) @ rest
         \<and> opens rest = 1"
    by (rule smart_result)
qed

subsection \<open>Three documents, one of each detected type\<close>

lemma count_examples:
  "countGraphicsObjects [paintImageXObject, moveTo, lineTo, stroke] = \<lparr>imageCount = 1, vectorCount = 1\<rparr>"
  "countGraphicsObjects [moveTo, lineTo, stroke] = \<lparr>imageCount = 0, vectorCount = 1\<rparr>"
  "countGraphicsObjects [] = \<lparr>imageCount = 0, vectorCount = 0\<rparr>"
  by (simp_all add: countGraphicsObjects_def scan_init_def scan_step_def mem_ops_simps)

lemma example_env:
  "loadPdfData (serving ps) (NodeBuffer []) = Inr []"
  "getDocument (serving ps) d = Inr \<lparr>pdfPages = ps\<rparr>"
  "numPages \<lparr>pdfPages = [p1]\<rparr> = Suc 0"
  "numPages \<lparr>pdfPages = [p1, p2]\<rparr> = 2"
  by (simp_all add: loadPdfData_def serving_def numPages_def)

lemma sample_nums: "samplePageNums 5 (Suc 0) = [Suc 0]" "samplePageNums 5 2 = [Suc 0, 2]"
  by (simp_all add: samplePageNums_def sampleStep_def pagesToAnalyze_def upt_rec)

lemma pages_two: "[Suc 0 ..< 3] = [Suc 0, 2]"
  by (simp add: upt_rec)

lemma example_ops:
  "analyzeOps plainPage acc = addCounts \<lparr>imageCount = 0, vectorCount = 1\<rparr> acc"
  "analyzeOps vectorPage acc = addCounts \<lparr>imageCount = 0, vectorCount = 1\<rparr> acc"
  "analyzeOps textPage acc = addCounts \<lparr>imageCount = 0, vectorCount = 0\<rparr> acc"
  "analyzeOps scannedPage acc =
     (addCounts \<lparr>imageCount = 1, vectorCount = 1\<rparr> acc)
       \<lparr>pagesWithLargeImages := pagesWithLargeImages acc + 1\<rparr>"
  by (simp_all add: analyzeOps_def plainPage_def vectorPage_def textPage_def scannedPage_def
      count_examples probeLargeImage_def mixedResources_def imageEntry_def dimension_def
      addCounts_def)

lemma example_text:
  "getTextContent scannedPage = Inr [utf16 ''Scanned'']"
  "getTextContent plainPage = Inr [utf16 ''Hello'', utf16 ''world'']"
  "getTextContent vectorPage = Inr [utf16 ''Drawing'']"
  "getTextContent textPage = Inr [utf16 ''Plain'', utf16 ''text'']"
  "pageResources plainPage = Missing"
  "pageResources scannedPage = Found mixedResources"
  "pageResources vectorPage = Found mixedResources"
  "pageResources textPage = Found mixedResources"
  by (simp_all add: scannedPage_def plainPage_def vectorPage_def textPage_def)

lemma example_sampling:
  "forEach (samplePage \<lparr>pdfPages = [Inr scannedPage, Inr plainPage]\<rparr>) [Suc 0, 2]
     \<lparr>totalImages = 0, totalVectors = 0, totalText = 0, pagesWithLargeImages = 0\<rparr>
   = (Inr \<lparr>totalImages = 1, totalVectors = 2, totalText = 3, pagesWithLargeImages = 1\<rparr>,
      [PageLoaded 1, PageCleanup 1, PageLoaded 2, PageCleanup 2])"
  "forEach (samplePage \<lparr>pdfPages = [Inr vectorPage]\<rparr>) [Suc 0]
     \<lparr>totalImages = 0, totalVectors = 0, totalText = 0, pagesWithLargeImages = 0\<rparr>
   = (Inr \<lparr>totalImages = 0, totalVectors = 1, totalText = 1, pagesWithLargeImages = 0\<rparr>,
      [PageLoaded 1, PageCleanup 1])"
  "forEach (samplePage \<lparr>pdfPages = [Inr textPage]\<rparr>) [Suc 0]
     \<lparr>totalImages = 0, totalVectors = 0, totalText = 0, pagesWithLargeImages = 0\<rparr>
   = (Inr \<lparr>totalImages = 0, totalVectors = 0, totalText = 2, pagesWithLargeImages = 0\<rparr>,
      [PageLoaded 1, PageCleanup 1])"
  by (simp_all add: samplePage_def example_env example_text example_ops addCounts_def succeed_def)

lemma example_verdict:
  "makeAnalysis 2 2 \<lparr>totalImages = Suc 0, totalVectors = 2, totalText = 3,
                     pagesWithLargeImages = Suc 0\<rparr>
   = \<lparr>type' = Scan, confidence = Num (394768654836695 / 562949953421312),
      stats = \<lparr>totalPages = 2, sampledPages = 2,
               avgImagesPerPage = Num (1 / 2), avgVectorsPerPage = Num 1,
               avgTextItemsPerPage = Num (3 / 2), largeImageRatio = Num (1 / 2),
               estimatedTotalImages = Num 1, estimatedTotalVectors = Num 2\<rparr>\<rparr>"
  "makeAnalysis (Suc 0) (Suc 0) \<lparr>totalImages = 0, totalVectors = Suc 0, totalText = Suc 0,
                     pagesWithLargeImages = 0\<rparr>
   = \<lparr>type' = Vector, confidence = Num (3242591731706757 / 4503599627370496),
      stats = \<lparr>totalPages = 1, sampledPages = 1,
               avgImagesPerPage = Num 0, avgVectorsPerPage = Num 1,
               avgTextItemsPerPage = Num 1, largeImageRatio = Num 0,
               estimatedTotalImages = Num 0, estimatedTotalVectors = Num 1\<rparr>\<rparr>"
  "makeAnalysis (Suc 0) (Suc 0) \<lparr>totalImages = 0, totalVectors = 0, totalText = 2,
                     pagesWithLargeImages = 0\<rparr>
   = \<lparr>type' = Text, confidence = Num (5458362748373041 / 9007199254740992),
      stats = \<lparr>totalPages = 1, sampledPages = 1,
               avgImagesPerPage = Num 0, avgVectorsPerPage = Num 0,
               avgTextItemsPerPage = Num 2, largeImageRatio = Num 0,
               estimatedTotalImages = Num 0, estimatedTotalVectors = Num 0\<rparr>\<rparr>"
  by code_simp+

lemma example_analysis:
  "analyzePdfType (serving [Inr scannedPage, Inr plainPage]) (NodeBuffer [])
        \<lparr>samplePages = Some 5\<rparr>
   = (Inr \<lparr>type' = Scan, confidence = Num (394768654836695 / 562949953421312),
      stats = \<lparr>totalPages = 2, sampledPages = 2,
               avgImagesPerPage = Num (1 / 2), avgVectorsPerPage = Num 1,
               avgTextItemsPerPage = Num (3 / 2), largeImageRatio = Num (1 / 2),
               estimatedTotalImages = Num 1, estimatedTotalVectors = Num 2\<rparr>\<rparr>,
      [DocumentOpened, PageLoaded 1, PageCleanup 1, PageLoaded 2, PageCleanup 2,
       DocumentDestroyed])"
  "analyzePdfType (serving [Inr vectorPage]) (NodeBuffer []) \<lparr>samplePages = Some 5\<rparr>
   = (Inr \<lparr>type' = Vector, confidence = Num (3242591731706757 / 4503599627370496),
      stats = \<lparr>totalPages = 1, sampledPages = 1,
               avgImagesPerPage = Num 0, avgVectorsPerPage = Num 1,
               avgTextItemsPerPage = Num 1, largeImageRatio = Num 0,
               estimatedTotalImages = Num 0, estimatedTotalVectors = Num 1\<rparr>\<rparr>,
      [DocumentOpened, PageLoaded 1, PageCleanup 1, DocumentDestroyed])"
  "analyzePdfType (serving [Inr textPage]) (NodeBuffer []) \<lparr>samplePages = Some 5\<rparr>
   = (Inr \<lparr>type' = Text, confidence = Num (5458362748373041 / 9007199254740992),
      stats = \<lparr>totalPages = 1, sampledPages = 1,
               avgImagesPerPage = Num 0, avgVectorsPerPage = Num 0,
               avgTextItemsPerPage = Num 2, largeImageRatio = Num 0,
               estimatedTotalImages = Num 0, estimatedTotalVectors = Num 0\<rparr>\<rparr>,
      [DocumentOpened, PageLoaded 1, PageCleanup 1, DocumentDestroyed])"
  by (simp_all add: analyzePdfType_def example_env sampleBudget_def sample_nums example_sampling
      pagesToAnalyze_def example_verdict succeed_def del: forEach.simps)

lemma example_dictionary:
  "countFromDictionary (Found mixedResources) acc =
     acc\<lparr>totalImages := totalImages acc + 2, totalVectors := totalVectors acc + 4\<rparr>"
  "countFromDictionary Missing acc = acc"
  by (simp_all add: countFromDictionary_def mixedResources_def imageEntry_def formEntry_def
      addKeys_def)

lemma example_pass:
  "forEach (smartPage \<lparr>onProgress = None\<rparr> \<lparr>pdfPages = [Inr scannedPage, Inr plainPage]\<rparr>)
     [Suc 0, 2] \<lparr>totalImages = 0, totalVectors = 0, fullText = []\<rparr>
   = (Inr \<lparr>totalImages = 2, totalVectors = 4,
           fullText = utf16 ''Scanned'' @ newline @ utf16 ''Hello world'' @ newline\<rparr>,
      [PageLoaded 1, PageCleanup 1, PageLoaded 2, PageCleanup 2])"
  by (simp add: smartPage_def example_env example_text example_dictionary succeed_def
      newline_def space_def utf16_def)

lemma example_trim:
  "trim (utf16 ''Scanned'' @ newline @ utf16 ''Hello world'' @ newline)
   = utf16 ''Scanned'' @ newline @ utf16 ''Hello world''"
  by (simp add: trim_def utf16_def newline_def isWhitespace_def)

lemma example_smart:
  "outcome (extractPdfSmart (serving [Inr scannedPage, Inr plainPage]) (NodeBuffer [])
      \<lparr>onProgress = None\<rparr>)
     = Inr \<lparr>imageCount = 2, vectorCount = 4,
            text' = utf16 ''Scanned'' @ newline @ utf16 ''Hello world'', pages = 2,
            pdfType = Scan, smartConfidence = Num (394768654836695 / 562949953421312)\<rparr>"
  by (simp add: outcome_def extractPdfSmart_def example_analysis example_env pages_two
      example_pass example_trim succeed_def
      del: upt_Suc forEach.simps)

text \<open>
  A scanned page followed by a plain one is detected as \<open>Scan\<close> with confidence
  0.7012499999999999, a page of line art as \<open>Vector\<close> with 0.72, a page of text as \<open>Text\<close>
  with 0.606; in each case the full pass runs and counts 2 images and 4 vectors from the
  resource dictionaries, with or without a progress callback.
\<close>

theorem smart_extraction_composition_witness:
  "outcome (extractPdfSmart (serving [Inr scannedPage, Inr plainPage]) (NodeBuffer [])
      \<lparr>onProgress = None\<rparr>)
     = Inr \<lparr>imageCount = 2, vectorCount = 4,
            text' = utf16 ''Scanned'' @ newline @ utf16 ''Hello world'', pages = 2,
            pdfType = Scan, smartConfidence = Num (394768654836695 / 562949953421312)\<rparr>
   \<and> (\<exists>r. outcome (extractPdfSmart (serving [Inr vectorPage]) (NodeBuffer [])
               \<lparr>onProgress = Some quietCallback\<rparr>) = Inr r
          \<and> pdfType r = Vector
          \<and> smartConfidence r = Num (3242591731706757 / 4503599627370496)
          \<and> pages r = 1 \<and> imageCount r = 2 \<and> vectorCount r = 4)
   \<and> (\<exists>r. outcome (extractPdfSmart (serving [Inr textPage]) (NodeBuffer [])
               \<lparr>onProgress = Some quietCallback\<rparr>) = Inr r
          \<and> pdfType r = Text
          \<and> smartConfidence r = Num (5458362748373041 / 9007199254740992)
          \<and> pages r = 1 \<and> imageCount r = 2 \<and> vectorCount r = 4)
   \<and> outcome (analyzePdfType (serving [Inr scannedPage, Inr plainPage]) (NodeBuffer [])
        \<lparr>samplePages = Some 5\<rparr>)
     = Inr \<lparr>type' = Scan, confidence = Num (394768654836695 / 562949953421312),
            stats = \<lparr>totalPages = 2, sampledPages = 2,
                     avgImagesPerPage = Num (1 / 2), avgVectorsPerPage = Num 1,
                     avgTextItemsPerPage = Num (3 / 2), largeImageRatio = Num (1 / 2),
                     estimatedTotalImages = Num 1, estimatedTotalVectors = Num 2\<rparr>\<rparr>"
proof -
  have single: "\<exists>r. outcome (extractPdfSmart (serving [Inr pg]) (NodeBuffer [])
                       \<lparr>onProgress = Some quietCallback\<rparr>) = Inr r
                  \<and> pdfType r = type' a \<and> smartConfidence r = confidence a
                  \<and> pages r = 1
                  \<and> imageCount r = totalImages (dictCounts (pageResources pg))
                  \<and> vectorCount r = totalVectors (dictCounts (pageResources pg))"
    if t: "\<not> isl (getTextContent pg)"
      and a: "outcome (analyzePdfType (serving [Inr pg]) (NodeBuffer [])
                \<lparr>samplePages = Some 5\<rparr>) = Inr a"
    for pg a
  proof -
    let ?E = "serving [Inr pg]"
    let ?O = "\<lparr>onProgress = Some quietCallback\<rparr>"
    obtain r where r: "outcome (extractPdfSmart ?E (NodeBuffer []) ?O) = Inr r"
      using smart_extraction_composition
        [of ?E "NodeBuffer []" "[]" "\<lparr>pdfPages = [Inr pg]\<rparr>" "[pg]" ?O]
      by (auto simp: example_env t quietCallback_def)
    obtain a' data pdf pgs where s:
      "outcome (analyzePdfType ?E (NodeBuffer []) \<lparr>samplePages = Some 5\<rparr>) = Inr a'"
      "pdfType r = type' a'" "smartConfidence r = confidence a'"
      "getDocument ?E data = Inr pdf"
      "pdfPages pdf = map Inr pgs" "pages r = length pgs"
      "imageCount r = sum_list (map (\<lambda>pg. totalImages (dictCounts (pageResources pg))) pgs)"
      "vectorCount r = sum_list (map (\<lambda>pg. totalVectors (dictCounts (pageResources pg))) pgs)"
      using smart_extraction_composition
        [of ?E "NodeBuffer []" "[]" "\<lparr>pdfPages = [Inr pg]\<rparr>" "[pg]" ?O r] r
      by blast
    have "map Inr pgs = [Inr pg :: error + page]"
      using s(4,5) by (auto simp: example_env)
    then have "pgs = [pg]" by (auto simp: map_eq_Cons_conv)
    moreover have "a' = a" using s(1) a by simp
    ultimately show ?thesis using r s by auto
  qed
  have av: "outcome (analyzePdfType (serving [Inr vectorPage]) (NodeBuffer [])
                \<lparr>samplePages = Some 5\<rparr>)
            = Inr \<lparr>type' = Vector, confidence = Num (3242591731706757 / 4503599627370496),
                   stats = \<lparr>totalPages = 1, sampledPages = 1,
                            avgImagesPerPage = Num 0, avgVectorsPerPage = Num 1,
                            avgTextItemsPerPage = Num 1, largeImageRatio = Num 0,
                            estimatedTotalImages = Num 0, estimatedTotalVectors = Num 1\<rparr>\<rparr>"
    by (simp add: outcome_def example_analysis(2))
  have ax: "outcome (analyzePdfType (serving [Inr textPage]) (NodeBuffer [])
                \<lparr>samplePages = Some 5\<rparr>)
            = Inr \<lparr>type' = Text, confidence = Num (5458362748373041 / 9007199254740992),
                   stats = \<lparr>totalPages = 1, sampledPages = 1,
                            avgImagesPerPage = Num 0, avgVectorsPerPage = Num 0,
                            avgTextItemsPerPage = Num 2, largeImageRatio = Num 0,
                            estimatedTotalImages = Num 0, estimatedTotalVectors = Num 0\<rparr>\<rparr>"
    by (simp add: outcome_def example_analysis(3))
  have v: "\<exists>r. outcome (extractPdfSmart (serving [Inr vectorPage]) (NodeBuffer [])
               \<lparr>onProgress = Some quietCallback\<rparr>) = Inr r
          \<and> pdfType r = Vector
          \<and> smartConfidence r = Num (3242591731706757 / 4503599627370496)
          \<and> pages r = 1 \<and> imageCount r = 2 \<and> vectorCount r = 4"
    using single[OF _ av]
    by (simp add: example_text dictCounts_def example_dictionary numeral_2_eq_2)
  have x: "\<exists>r. outcome (extractPdfSmart (serving [Inr textPage]) (NodeBuffer [])
               \<lparr>onProgress = Some quietCallback\<rparr>) = Inr r
          \<and> pdfType r = Text
          \<and> smartConfidence r = Num (5458362748373041 / 9007199254740992)
          \<and> pages r = 1 \<and> imageCount r = 2 \<and> vectorCount r = 4"
    using single[OF _ ax]
    by (simp add: example_text dictCounts_def example_dictionary numeral_2_eq_2)
  show ?thesis
    using example_smart v x by (simp add: outcome_def example_analysis(1))
qed

end
